theory Spec2Isabelle
  imports Complex_Main
begin

section \<open>Data model: cells, columns and tables\<close>

text \<open>
  The analyser of \<^verbatim>\<open>telecom_churn_analyzer.py\<close> works on a pandas table loaded from JSON.
  A cell is what a JSON value becomes in such a table. A finite float is the rational
  number it stands for, the two infinities are explicit, and the float NaN is the cell
  \<open>NaN\<close>. The rounding of an exact result to a float, with an infinity for a result out
  of range, is the parameter \<open>round64\<close> of the environment below.
\<close>

datatype fl = Fin rat | PInf | NInf

datatype cell =
    NaN
  | PyNone
  | Text string
  | IntNum int
  | FloatNum fl
  | Flag bool
  | Nested string
  | Listv string

text \<open>
  \<open>Nested\<close> is a Python dict and \<open>Listv\<close> a Python list; the payload stands for the
  value of the object, so that two dicts or two lists are equal in Python exactly when
  their payloads are. The column types are those a JSON load produces and the code
  selects on; \<open>Object\<close> is the type of the columns that
  \<open>select_dtypes(include="object")\<close> selects.
\<close>

datatype dtype = Object | Float64 | Int64 | Bool

record column =
  cname :: string
  dtype :: dtype
  cells :: "cell list"

record table =
  nrows :: nat
  cols :: "column list"

datatype error = ValueError | SourceFailure | AttributeError | KeyError | TypeError
  | ZeroDivisionError | OverflowError | RenderFailure

definition names :: "table \<Rightarrow> string list" where
  "names t = map cname (cols t)"

fun cell_ok :: "dtype \<Rightarrow> cell \<Rightarrow> bool" where
  "cell_ok Object x = True"
| "cell_ok Float64 x = (case x of NaN \<Rightarrow> True | FloatNum v \<Rightarrow> True | _ \<Rightarrow> False)"
| "cell_ok Int64 x = (case x of IntNum i \<Rightarrow> True | _ \<Rightarrow> False)"
| "cell_ok Bool x = (case x of Flag b \<Rightarrow> True | _ \<Rightarrow> False)"

text \<open>
  A table is well formed when its column names are distinct (they are the keys of JSON
  objects), every column has one cell per row, and every cell fits its column's type.
\<close>

definition wf_table :: "table \<Rightarrow> bool" where
  "wf_table t \<longleftrightarrow>
     distinct (names t) \<and>
     (\<forall>c \<in> set (cols t). length (cells c) = nrows t \<and> (\<forall>x \<in> set (cells c). cell_ok (dtype c) x))"

fun isna :: "cell \<Rightarrow> bool" where
  "isna NaN = True"
| "isna PyNone = True"
| "isna x = False"

fun is_dict :: "cell \<Rightarrow> bool" where
  "is_dict (Nested d) = True"
| "is_dict x = False"

fun unhashable :: "cell \<Rightarrow> bool" where
  "unhashable (Nested d) = True"
| "unhashable (Listv l) = True"
| "unhashable x = False"

text \<open>
  Python equality and hashing identify \<open>True\<close> with \<open>1\<close> and \<open>1\<close> with \<open>1.0\<close>;
  \<open>series_key\<close> maps a cell to the representative of its class, with NaN equal to NaN
  as pandas has it and \<open>None\<close> apart from NaN. Where pandas factorizes a column, every
  missing value is alike: \<open>py_key\<close>.
\<close>

fun series_key :: "cell \<Rightarrow> cell" where
  "series_key (IntNum i) = FloatNum (Fin (of_int i))"
| "series_key (Flag b) = FloatNum (Fin (if b then 1 else 0))"
| "series_key x = x"

fun py_key :: "cell \<Rightarrow> cell" where
  "py_key PyNone = NaN"
| "py_key x = series_key x"

definition get_column :: "table \<Rightarrow> string \<Rightarrow> column option" where
  "get_column t n = find (\<lambda>c. cname c = n) (cols t)"

definition rows_of :: "table \<Rightarrow> cell list list" where
  "rows_of t = map (\<lambda>i. map (\<lambda>c. cells c ! i) (cols t)) [0..<nrows t]"

section \<open>The analyser's state\<close>

datatype msg =
    MsgLoadedUrl nat
  | MsgLoadedFile nat
  | MsgLoadError error
  | MsgNestedColumn string
  | MsgDuplicatesRemoved nat nat
  | MsgClean
  | MsgColumns "string list"
  | MsgDailyCreated
  | MsgChargeColumn string
  | MsgNoChargeColumn
  | MsgAnalysisDone
  | MsgReport string

record results =
  churn_rate :: "(cell \<times> rat) list"
  avg_charges :: "(cell \<times> cell) list"
  total_customers :: nat

record report =
  rep_total :: nat
  rep_churn_rate :: "(cell \<times> rat) list"
  rep_avg_charges :: "(cell \<times> cell) list"
  rep_image :: string

record analyzer =
  raw_data :: "table option"
  df :: "table option"
  results :: "results option"
  console :: "msg list"
  files :: "string \<Rightarrow> report option"

text \<open>\<open>__init__\<close>: nothing loaded, no results (the empty dict), nothing printed.\<close>

definition init :: "(string \<Rightarrow> report option) \<Rightarrow> analyzer" where
  "init fs = \<lparr>raw_data = None, df = None, results = None, console = [], files = fs\<rparr>"

definition say :: "msg list \<Rightarrow> analyzer \<Rightarrow> analyzer" where
  "say ms st = st\<lparr>console := console st @ ms\<rparr>"

section \<open>The environment\<close>

text \<open>
  What lies outside the program is a parameter of the model:
  \<^item> \<open>http_get\<close>, the HTTP fetch followed by \<open>json_normalize\<close>, and \<open>read_json\<close>, which give
    a table or fail;
  \<^item> \<open>py_str\<close>, Python's \<open>str\<close> on the value of a cell;
  \<^item> \<open>astype_keeps_na\<close>: whether \<open>astype(str)\<close> leaves a missing value missing (pandas 3)
    or turns it into text (pandas 2);
  \<^item> \<open>round64\<close>, the rounding of an exact number to the nearest float, an infinity when
    it is out of range;
  \<^item> \<open>float_mean\<close>, the mean pandas computes of floats, none of them NaN, and
    \<open>object_mean\<close>, its mean of a group of an object column, which depends on the pandas
    version and gives nothing where pandas raises its \<open>TypeError\<close>;
  \<^item> \<open>render_chart\<close>, the charting library, which gives the encoded image or fails.
\<close>

record env =
  http_get :: "string \<Rightarrow> error + table"
  read_json :: "string \<Rightarrow> error + table"
  py_str :: "cell \<Rightarrow> string"
  astype_keeps_na :: bool
  round64 :: "rat \<Rightarrow> fl"
  float_mean :: "fl list \<Rightarrow> cell"
  object_mean :: "cell list \<Rightarrow> cell option"
  render_chart :: "(cell \<times> nat) list \<Rightarrow> error + string"

section \<open>1. Loading\<close>

text \<open>
  \<open>load_data\<close>: a URL or path is used when it is truthy (neither \<open>None\<close> nor the empty
  string). Every exception, the \<open>ValueError\<close> of the last branch included, is caught:
  the error is printed and \<open>raw_data\<close> becomes \<open>None\<close>.
\<close>

fun truthy :: "string option \<Rightarrow> bool" where
  "truthy None = False"
| "truthy (Some s) = (s \<noteq> [])"

definition load_data ::
  "env \<Rightarrow> string option \<Rightarrow> string option \<Rightarrow> analyzer \<Rightarrow> error option \<times> analyzer" where
  "load_data ev url file_path st =
     (let attempt =
        (if truthy url then
           (case http_get ev (the url) of
              Inl e \<Rightarrow> Inl e
            | Inr t \<Rightarrow> Inr (say [MsgLoadedUrl (nrows t)] (st\<lparr>raw_data := Some t\<rparr>)))
         else if truthy file_path then
           (case read_json ev (the file_path) of
              Inl e \<Rightarrow> Inl e
            | Inr t \<Rightarrow> Inr (say [MsgLoadedFile (nrows t)] (st\<lparr>raw_data := Some t\<rparr>)))
         else Inl ValueError)
      in case attempt of
           Inl e \<Rightarrow> (None, (say [MsgLoadError e] st)\<lparr>raw_data := None\<rparr>)
         | Inr st' \<Rightarrow> (None, st'))"

section \<open>2. Cleaning\<close>

text \<open>
  Step 1 of \<open>clean_data\<close>: a column with at least one dict cell is converted with
  \<open>astype(str)\<close>, which applies Python's \<open>str\<close> to the cells of the column and makes it
  a text column; a missing cell stays missing or becomes text, as the pandas version
  has it.
\<close>

definition has_dict :: "column \<Rightarrow> bool" where
  "has_dict c = (\<exists>x \<in> set (cells c). is_dict x)"

definition astype_str :: "env \<Rightarrow> cell \<Rightarrow> cell" where
  "astype_str ev x = (if astype_keeps_na ev \<and> isna x then NaN else Text (py_str ev x))"

definition stringify_column :: "env \<Rightarrow> column \<Rightarrow> column" where
  "stringify_column ev c =
     (if has_dict c then c\<lparr>dtype := Object, cells := map (astype_str ev) (cells c)\<rparr> else c)"

definition stringify :: "env \<Rightarrow> table \<Rightarrow> table" where
  "stringify ev t = t\<lparr>cols := map (stringify_column ev) (cols t)\<rparr>"

definition nested_msgs :: "table \<Rightarrow> msg list" where
  "nested_msgs t = map (\<lambda>c. MsgNestedColumn (cname c)) (filter has_dict (cols t))"

text \<open>
  Step 2: \<open>drop_duplicates\<close> with its defaults keeps the first row of every class of
  rows that are equal in all columns. pandas returns a frame with no rows or no columns
  as it is. On a frame with one column it compares the cells of that column, lists
  included, with \<open>None\<close> apart from NaN. On a frame with more columns it factorizes
  every column, where all missing values are alike, and fails with a \<open>TypeError\<close> on a
  cell that cannot be hashed (a list, or a dict if one were left).
\<close>

fun keep_first :: "'a list \<Rightarrow> 'a list \<Rightarrow> bool list" where
  "keep_first seen [] = []"
| "keep_first seen (k # ks) = (k \<notin> set seen) # keep_first (k # seen) ks"

definition select :: "bool list \<Rightarrow> 'a list \<Rightarrow> 'a list" where
  "select keep xs = map snd (filter fst (zip keep xs))"

definition row_keys :: "table \<Rightarrow> cell list list" where
  "row_keys t = map (map (if length (cols t) = 1 then series_key else py_key)) (rows_of t)"

definition drop_duplicates :: "table \<Rightarrow> error + table" where
  "drop_duplicates t =
     (if nrows t = 0 \<or> cols t = [] then Inr t
      else if length (cols t) \<noteq> 1 \<and> (\<exists>c \<in> set (cols t). \<exists>x \<in> set (cells c). unhashable x)
      then Inl TypeError
      else let keep = keep_first [] (row_keys t)
           in Inr \<lparr>nrows = length (filter id keep),
                   cols = map (\<lambda>c. c\<lparr>cells := select keep (cells c)\<rparr>) (cols t)\<rparr>)"

text \<open>
  Steps 3 and 4: \<open>fillna\<close> on the object columns with the text \<open>Desconocido\<close>, then on
  the float and integer columns with \<open>0\<close>.
\<close>

definition fillna :: "cell \<Rightarrow> cell \<Rightarrow> cell" where
  "fillna v x = (if isna x then v else x)"

definition fill_text_column :: "column \<Rightarrow> column" where
  "fill_text_column c =
     (if dtype c = Object then c\<lparr>cells := map (fillna (Text ''Desconocido'')) (cells c)\<rparr> else c)"

definition fill_numeric_column :: "column \<Rightarrow> column" where
  "fill_numeric_column c =
     (if dtype c = Float64 then c\<lparr>cells := map (fillna (FloatNum (Fin 0))) (cells c)\<rparr>
      else if dtype c = Int64 then c\<lparr>cells := map (fillna (IntNum 0)) (cells c)\<rparr>
      else c)"

definition fill_nulls :: "table \<Rightarrow> table" where
  "fill_nulls t = t\<lparr>cols := map fill_numeric_column (map fill_text_column (cols t))\<rparr>"

definition clean_data :: "env \<Rightarrow> analyzer \<Rightarrow> error option \<times> analyzer" where
  "clean_data ev st =
     (case raw_data st of
        None \<Rightarrow> (Some AttributeError, st)
      | Some raw \<Rightarrow>
          (let st1 = say (nested_msgs raw) st;
               t1 = stringify ev raw
           in case drop_duplicates t1 of
                Inl e \<Rightarrow> (Some e, st1)
              | Inr t2 \<Rightarrow>
                  (None, say [MsgDuplicatesRemoved (nrows t1 - nrows t2) (nrows t2), MsgClean]
                           (st1\<lparr>df := Some (fill_nulls t2)\<rparr>))))"

section \<open>3. The daily column\<close>

text \<open>
  The division of a float by the float \<open>days_per_month\<close>, a finite float given by its
  value: the quotient of two finite numbers is the exact quotient rounded, and a zero
  divisor gives an infinity or NaN. An integer or a boolean is converted to a float
  first.
\<close>

fun fdiv :: "(rat \<Rightarrow> fl) \<Rightarrow> fl \<Rightarrow> rat \<Rightarrow> cell" where
  "fdiv rnd (Fin x) d =
     (if d = 0 then (if 0 < x then FloatNum PInf else if x < 0 then FloatNum NInf else NaN)
      else FloatNum (rnd (x / d)))"
| "fdiv rnd PInf d = (if d < 0 then FloatNum NInf else FloatNum PInf)"
| "fdiv rnd NInf d = (if d < 0 then FloatNum PInf else FloatNum NInf)"

fun as_float :: "(rat \<Rightarrow> fl) \<Rightarrow> cell \<Rightarrow> fl option" where
  "as_float rnd (FloatNum v) = Some v"
| "as_float rnd (IntNum i) = Some (rnd (of_int i))"
| "as_float rnd (Flag b) = Some (Fin (if b then 1 else 0))"
| "as_float rnd x = None"


text \<open>On a float, integer or boolean column numpy divides, and never raises.\<close>

definition np_truediv :: "(rat \<Rightarrow> fl) \<Rightarrow> cell \<Rightarrow> rat \<Rightarrow> cell" where
  "np_truediv rnd x d = (case as_float rnd x of None \<Rightarrow> NaN | Some v \<Rightarrow> fdiv rnd v d)"

text \<open>
  In an object column the division is Python's, cell by cell: an integer too large for
  a float raises \<open>OverflowError\<close>, a number divided by zero raises \<open>ZeroDivisionError\<close>,
  a text, \<open>None\<close>, dict or list raises \<open>TypeError\<close>. After a \<open>TypeError\<close> pandas repeats
  the operation on the cells that are not missing and puts NaN at the missing ones.
\<close>

fun py_truediv :: "(rat \<Rightarrow> fl) \<Rightarrow> cell \<Rightarrow> rat \<Rightarrow> error + cell" where
  "py_truediv rnd NaN d = (if d = 0 then Inl ZeroDivisionError else Inr NaN)"
| "py_truediv rnd (FloatNum v) d = (if d = 0 then Inl ZeroDivisionError else Inr (fdiv rnd v d))"
| "py_truediv rnd (IntNum i) d =
     (case rnd (of_int i) of
        Fin r \<Rightarrow> if d = 0 then Inl ZeroDivisionError else Inr (fdiv rnd (Fin r) d)
      | _ \<Rightarrow> Inl OverflowError)"
| "py_truediv rnd (Flag b) d =
     (if d = 0 then Inl ZeroDivisionError else Inr (fdiv rnd (Fin (if b then 1 else 0)) d))"
| "py_truediv rnd x d = Inl TypeError"

fun traverse :: "('a \<Rightarrow> error + 'b) \<Rightarrow> 'a list \<Rightarrow> error + 'b list" where
  "traverse f [] = Inr []"
| "traverse f (x # xs) =
     (case f x of
        Inl e \<Rightarrow> Inl e
      | Inr y \<Rightarrow> (case traverse f xs of Inl e \<Rightarrow> Inl e | Inr ys \<Rightarrow> Inr (y # ys)))"

definition object_truediv :: "(rat \<Rightarrow> fl) \<Rightarrow> cell list \<Rightarrow> rat \<Rightarrow> error + cell list" where
  "object_truediv rnd cs d =
     (case traverse (\<lambda>x. py_truediv rnd x d) cs of
        Inr vs \<Rightarrow> Inr vs
      | Inl TypeError \<Rightarrow> traverse (\<lambda>x. if isna x then Inr NaN else py_truediv rnd x d) cs
      | Inl e \<Rightarrow> Inl e)"

definition divide_column :: "env \<Rightarrow> column \<Rightarrow> rat \<Rightarrow> error + (dtype \<times> cell list)" where
  "divide_column ev c d =
     (if dtype c = Object then
        (case object_truediv (round64 ev) (cells c) d of
           Inl e \<Rightarrow> Inl e
         | Inr vs \<Rightarrow> Inr (Object, vs))
      else Inr (Float64, map (\<lambda>x. np_truediv (round64 ev) x d) (cells c)))"

text \<open>
  \<open>df[n] = values\<close>: a column of that name is replaced where it stands, otherwise the
  new column is appended.
\<close>

definition set_column :: "table \<Rightarrow> string \<Rightarrow> dtype \<Rightarrow> cell list \<Rightarrow> table" where
  "set_column t n dt vs =
     (if n \<in> set (names t)
      then t\<lparr>cols := map (\<lambda>c. if cname c = n then c\<lparr>dtype := dt, cells := vs\<rparr> else c) (cols t)\<rparr>
      else t\<lparr>cols := cols t @ [\<lparr>cname = n, dtype = dt, cells = vs\<rparr>]\<rparr>)"

definition create_daily_column :: "env \<Rightarrow> rat \<Rightarrow> analyzer \<Rightarrow> error option \<times> analyzer" where
  "create_daily_column ev days_per_month st =
     (case df st of
        None \<Rightarrow> (Some AttributeError, st)
      | Some t \<Rightarrow>
          (case get_column t ''MonthlyCharges'' of
             None \<Rightarrow> (None, st)
           | Some c \<Rightarrow>
               (case divide_column ev c days_per_month of
                  Inl e \<Rightarrow> (Some e, st)
                | Inr (dt, vs) \<Rightarrow>
                    (None, say [MsgDailyCreated]
                             (st\<lparr>df := Some (set_column t ''DailyCharges'' dt vs)\<rparr>)))))"

section \<open>4. Analysis\<close>

text \<open>
  \<open>value_counts\<close> leaves the missing values out and counts every other value, values
  that Python holds equal being one key (the first one met), and orders the keys by
  falling count; keys of equal count stay in the order in which they were met (numpy
  sorts short arrays so). With \<open>normalize=True\<close> each count is divided by the sum of the
  counts. A mapping is a list of pairs with one pair for each key.
\<close>

fun uniq_py :: "cell list \<Rightarrow> cell list \<Rightarrow> cell list" where
  "uniq_py seen [] = []"
| "uniq_py seen (x # xs) =
     (if py_key x \<in> set seen then uniq_py seen xs else x # uniq_py (py_key x # seen) xs)"

definition count_py :: "cell list \<Rightarrow> cell \<Rightarrow> nat" where
  "count_py xs k = length (filter (\<lambda>x. py_key x = py_key k) xs)"

definition notna :: "cell list \<Rightarrow> cell list" where
  "notna vs = filter (\<lambda>x. \<not> isna x) vs"

definition value_counts :: "cell list \<Rightarrow> (cell \<times> nat) list" where
  "value_counts vs =
     sort_key (\<lambda>e. - int (snd e)) (map (\<lambda>k. (k, count_py (notna vs) k)) (uniq_py [] (notna vs)))"

definition value_counts_normalized :: "cell list \<Rightarrow> (cell \<times> rat) list" where
  "value_counts_normalized vs =
     map (\<lambda>(k, n). (k, of_nat n / of_nat (length (notna vs)))) (value_counts vs)"

text \<open>
  The charge column: the first column name, in column order, whose lower-case form
  contains \<open>charge\<close> or \<open>cargos\<close>. A string is a list of bytes, and \<open>lower\<close> changes
  the ASCII capitals only; no other character has a lower-case form with a letter of
  the two words, so the test is that of Python's \<open>str.lower\<close>.
\<close>

definition lower_char :: "char \<Rightarrow> char" where
  "lower_char c =
     (let n = (of_char c :: nat) in if 65 \<le> n \<and> n \<le> 90 then char_of (n + 32) else c)"

definition lower :: "string \<Rightarrow> string" where
  "lower s = map lower_char s"

fun contains :: "string \<Rightarrow> string \<Rightarrow> bool" where
  "contains sub [] = (sub = [])"
| "contains sub (c # cs) = (take (length sub) (c # cs) = sub \<or> contains sub cs)"

definition is_charge_name :: "string \<Rightarrow> bool" where
  "is_charge_name n \<longleftrightarrow> contains ''charge'' (lower n) \<or> contains ''cargos'' (lower n)"

definition find_charge_col :: "string list \<Rightarrow> string option" where
  "find_charge_col ns = find is_charge_name ns"

text \<open>
  \<open>groupby("Churn")[col].mean()\<close>: one group for every key that is not missing, the
  groups in the order of their keys (numbers by value and before texts, texts by their
  characters). In a numeric or boolean column the mean is that of the group's values
  that are not missing, as floats, and NaN when there is none.
\<close>

fun fl_le :: "fl \<Rightarrow> fl \<Rightarrow> bool" where
  "fl_le NInf y = True"
| "fl_le x PInf = True"
| "fl_le (Fin a) (Fin b) = (a \<le> b)"
| "fl_le x y = False"

fun str_le :: "string \<Rightarrow> string \<Rightarrow> bool" where
  "str_le [] t = True"
| "str_le (a # s) [] = False"
| "str_le (a # s) (b # t) =
     ((of_char a :: nat) < of_char b \<or> ((of_char a :: nat) = of_char b \<and> str_le s t))"

fun key_le :: "cell \<Rightarrow> cell \<Rightarrow> bool" where
  "key_le (FloatNum a) (FloatNum b) = fl_le a b"
| "key_le (FloatNum a) y = True"
| "key_le (Text s) (FloatNum b) = False"
| "key_le (Text s) (Text t) = str_le s t"
| "key_le (Text s) y = True"
| "key_le x y = False"

fun insert_key :: "cell \<Rightarrow> cell list \<Rightarrow> cell list" where
  "insert_key k [] = [k]"
| "insert_key k (x # xs) =
     (if key_le (series_key k) (series_key x) then k # x # xs else x # insert_key k xs)"

definition sort_keys :: "cell list \<Rightarrow> cell list" where
  "sort_keys ks = foldr insert_key ks []"

definition numeric_mean :: "env \<Rightarrow> cell list \<Rightarrow> cell" where
  "numeric_mean ev cs =
     (let vs = List.map_filter (as_float (round64 ev)) cs
      in if vs = [] then NaN else float_mean ev vs)"

definition group_values :: "cell list \<Rightarrow> cell list \<Rightarrow> cell \<Rightarrow> cell list" where
  "group_values keys vals k = map snd (filter (\<lambda>(x, v). py_key x = py_key k) (zip keys vals))"

definition groupby_mean :: "env \<Rightarrow> column \<Rightarrow> column \<Rightarrow> error + (cell \<times> cell) list" where
  "groupby_mean ev by c =
     traverse (\<lambda>k. if dtype c = Object
                   then (case object_mean ev (group_values (cells by) (cells c) k) of
                           None \<Rightarrow> Inl TypeError | Some m \<Rightarrow> Inr (k, m))
                   else Inr (k, numeric_mean ev (group_values (cells by) (cells c) k)))
              (sort_keys (uniq_py [] (notna (cells by))))"

text \<open>
  \<open>analyze_data\<close>. The \<open>to_dict\<close> of the counts raises a \<open>TypeError\<close> on a key that cannot
  be hashed.
\<close>

definition analyze_data :: "env \<Rightarrow> analyzer \<Rightarrow> error option \<times> analyzer" where
  "analyze_data ev st =
     (case df st of
        None \<Rightarrow> (Some AttributeError, st)
      | Some t \<Rightarrow>
          (case get_column t ''Churn'' of
             None \<Rightarrow> (Some KeyError, st)
           | Some churn \<Rightarrow>
               if \<exists>x \<in> set (cells churn). unhashable x then (Some TypeError, st)
               else
                 (let rate = value_counts_normalized (cells churn);
                      charge_col = find_charge_col (names t);
                      avg = (if truthy charge_col
                             then (case get_column t (the charge_col) of
                                     None \<Rightarrow> Inl KeyError
                                   | Some c \<Rightarrow> groupby_mean ev churn c)
                             else Inr [])
                  in case avg of
                       Inl e \<Rightarrow> (Some e, st)
                     | Inr a \<Rightarrow>
                         (None,
                          say [if truthy charge_col then MsgChargeColumn (the charge_col)
                               else MsgNoChargeColumn,
                               MsgAnalysisDone]
                            (st\<lparr>results := Some \<lparr>churn_rate = rate, avg_charges = a,
                                                  total_customers = nrows t\<rparr>\<rparr>)))))"

section \<open>5 and 6. The chart and the report\<close>

text \<open>
  \<open>plot_churn\<close> hands the counts of the \<open>Churn\<close> column, list cells counted like the
  others, to the charting library. \<open>generate_report\<close> then reads the three results and
  writes the document to the given path.
\<close>

definition plot_churn :: "env \<Rightarrow> analyzer \<Rightarrow> error + string" where
  "plot_churn ev st =
     (case df st of
        None \<Rightarrow> Inl TypeError
      | Some t \<Rightarrow>
          (case get_column t ''Churn'' of
             None \<Rightarrow> Inl KeyError
           | Some churn \<Rightarrow> render_chart ev (value_counts (cells churn))))"

definition generate_report :: "env \<Rightarrow> string \<Rightarrow> analyzer \<Rightarrow> error option \<times> analyzer" where
  "generate_report ev output_html st =
     (case plot_churn ev st of
        Inl e \<Rightarrow> (Some e, st)
      | Inr img \<Rightarrow>
          (case results st of
             None \<Rightarrow> (Some KeyError, st)
           | Some r \<Rightarrow>
               (None,
                say [MsgReport output_html]
                  (st\<lparr>files := (files st)(output_html \<mapsto>
                          \<lparr>rep_total = total_customers r, rep_churn_rate = churn_rate r,
                           rep_avg_charges = avg_charges r, rep_image = img\<rparr>)\<rparr>))))"

section \<open>7. The pipeline\<close>

text \<open>
  \<open>run_and_report\<close> calls the stages in order; an exception of a stage ends the run
  with the state reached so far.
\<close>

definition and_then ::
  "error option \<times> analyzer \<Rightarrow> (analyzer \<Rightarrow> error option \<times> analyzer) \<Rightarrow> error option \<times> analyzer" where
  "and_then r f = (case r of (Some e, st) \<Rightarrow> (Some e, st) | (None, st) \<Rightarrow> f st)"

definition show_columns :: "analyzer \<Rightarrow> error option \<times> analyzer" where
  "show_columns st =
     (case df st of
        None \<Rightarrow> (Some AttributeError, st)
      | Some t \<Rightarrow> (None, say [MsgColumns (names t)] st))"

definition run_and_report ::
  "env \<Rightarrow> string option \<Rightarrow> string option \<Rightarrow> string \<Rightarrow> rat \<Rightarrow> analyzer \<Rightarrow> error option \<times> analyzer" where
  "run_and_report ev url file_path output_html days_per_month st =
     and_then (and_then (and_then (and_then (and_then
       (load_data ev url file_path st)
       (clean_data ev))
       show_columns)
       (create_daily_column ev days_per_month))
       (analyze_data ev))
       (generate_report ev output_html)"

text \<open>The stages of \<open>run_and_report\<close> that come before the analysis.\<close>

definition before_analysis ::
  "env \<Rightarrow> string option \<Rightarrow> string option \<Rightarrow> rat \<Rightarrow> analyzer \<Rightarrow> error option \<times> analyzer" where
  "before_analysis ev url fp d st = and_then (and_then (and_then
       (load_data ev url fp st)
       (clean_data ev))
       show_columns)
       (create_daily_column ev d)"

section \<open>Example inputs\<close>

text \<open>
  Small tables on which the operations are evaluated: the table of the specification's
  scenario (its third row repeats the first) and its cleaned form, tables without a
  \<open>Churn\<close> column, without rows, without columns, with a text column of charges, with
  a \<open>DailyCharges\<close> column of their own, with missing values, with one column of
  lists or of a dict; and an environment that serves two of them by URL. The example
  environment rounds nothing and takes the exact mean for the mean; the quotients and
  means read from it below (1, 2, one half, 50, 70) are floats, which the float
  computation gives exactly. \<open>ex_env_keep_na\<close> is the same environment with the
  \<open>astype(str)\<close> that keeps a missing value missing.
\<close>

fun fl_add :: "fl \<Rightarrow> fl \<Rightarrow> fl option" where
  "fl_add (Fin a) (Fin b) = Some (Fin (a + b))"
| "fl_add PInf NInf = None"
| "fl_add NInf PInf = None"
| "fl_add PInf y = Some PInf"
| "fl_add NInf y = Some NInf"
| "fl_add x PInf = Some PInf"
| "fl_add x NInf = Some NInf"

fun fl_sum :: "fl option \<Rightarrow> fl list \<Rightarrow> fl option" where
  "fl_sum acc [] = acc"
| "fl_sum acc (v # vs) = fl_sum (case acc of None \<Rightarrow> None | Some a \<Rightarrow> fl_add a v) vs"

definition exact_mean :: "fl list \<Rightarrow> cell" where
  "exact_mean vs =
     (case fl_sum (Some (Fin 0)) vs of
        None \<Rightarrow> NaN
      | Some s \<Rightarrow> fdiv Fin s (of_nat (length vs)))"

definition ex_scenario :: table where
  "ex_scenario = \<lparr>nrows = 3, cols =
     [\<lparr>cname = ''Churn'', dtype = Object, cells = [Text ''Yes'', Text ''No'', Text ''Yes'']\<rparr>,
      \<lparr>cname = ''MonthlyCharges'', dtype = Float64,
        cells = [FloatNum (Fin 70), FloatNum (Fin 50), FloatNum (Fin 70)]\<rparr>]\<rparr>"

definition ex_no_churn :: table where
  "ex_no_churn = \<lparr>nrows = 2, cols =
     [\<lparr>cname = ''tenure'', dtype = Int64, cells = [IntNum 1, IntNum 2]\<rparr>]\<rparr>"

definition ex_env :: env where
  "ex_env = \<lparr>http_get = (\<lambda>u. if u = ''scenario'' then Inr ex_scenario
                           else if u = ''nochurn'' then Inr ex_no_churn
                           else Inl SourceFailure),
            read_json = (\<lambda>p. Inl SourceFailure),
            py_str = (\<lambda>x. case x of Text s \<Rightarrow> s | Nested s \<Rightarrow> s | Listv s \<Rightarrow> s
                          | PyNone \<Rightarrow> ''None'' | _ \<Rightarrow> ''nan''),
            astype_keeps_na = False,
            round64 = Fin,
            float_mean = exact_mean,
            object_mean = (\<lambda>cs. None),
            render_chart = (\<lambda>cs. Inr ''png'')\<rparr>"





definition ex_daily :: table where
  "ex_daily = \<lparr>nrows = 1, cols =
     [\<lparr>cname = ''MonthlyCharges'', dtype = Float64, cells = [FloatNum (Fin 30)]\<rparr>,
      \<lparr>cname = ''DailyCharges'', dtype = Float64, cells = [FloatNum (Fin 5)]\<rparr>]\<rparr>"

definition ex_no_columns :: table where
  "ex_no_columns = \<lparr>nrows = 2, cols = []\<rparr>"

definition ex_zero_nan :: table where
  "ex_zero_nan = \<lparr>nrows = 2, cols =
     [\<lparr>cname = ''tenure'', dtype = Float64, cells = [FloatNum (Fin 0), NaN]\<rparr>]\<rparr>"

definition ex_missing_text :: table where
  "ex_missing_text = \<lparr>nrows = 2, cols =
     [\<lparr>cname = ''plan'', dtype = Object, cells = [Text ''basic'', PyNone]\<rparr>]\<rparr>"

definition ex_scenario_clean :: table where
  "ex_scenario_clean = \<lparr>nrows = 2, cols =
     [\<lparr>cname = ''Churn'', dtype = Object, cells = [Text ''Yes'', Text ''No'']\<rparr>,
      \<lparr>cname = ''MonthlyCharges'', dtype = Float64,
        cells = [FloatNum (Fin 70), FloatNum (Fin 50)]\<rparr>]\<rparr>"

definition ex_zero_zero :: table where
  "ex_zero_zero = \<lparr>nrows = 2, cols =
     [\<lparr>cname = ''tenure'', dtype = Float64, cells = [FloatNum (Fin 0), FloatNum (Fin 0)]\<rparr>]\<rparr>"

definition ex_zero :: table where
  "ex_zero = \<lparr>nrows = 1, cols =
     [\<lparr>cname = ''tenure'', dtype = Float64, cells = [FloatNum (Fin 0)]\<rparr>]\<rparr>"

definition ex_one_column :: table where
  "ex_one_column = \<lparr>nrows = 3, cols =
     [\<lparr>cname = ''x'', dtype = Object, cells = [Text ''a'', PyNone, NaN]\<rparr>]\<rparr>"

definition ex_dict_column :: table where
  "ex_dict_column = \<lparr>nrows = 3, cols =
     [\<lparr>cname = ''plan'', dtype = Object,
       cells = [Nested ''{}'', PyNone, Text ''Desconocido'']\<rparr>]\<rparr>"

definition ex_env_keep_na :: env where
  "ex_env_keep_na = ex_env\<lparr>astype_keeps_na := True\<rparr>"

definition ex_list_column :: table where
  "ex_list_column = \<lparr>nrows = 3, cols =
     [\<lparr>cname = ''x'', dtype = Object, cells = [Listv ''[1]'', Listv ''[1]'', Listv ''[2]'']\<rparr>]\<rparr>"

definition ex_list_columns :: table where
  "ex_list_columns = \<lparr>nrows = 2, cols =
     [\<lparr>cname = ''x'', dtype = Object, cells = [Listv ''[1]'', Listv ''[1]'']\<rparr>,
      \<lparr>cname = ''y'', dtype = Int64, cells = [IntNum 1, IntNum 1]\<rparr>]\<rparr>"

section \<open>Basic facts\<close>

lemma get_column_None_iff: "get_column t n = None \<longleftrightarrow> n \<notin> set (names t)"
  by (auto simp: get_column_def names_def find_None_iff)


lemma not_charge_name_Nil: "\<not> is_charge_name []"
  by (simp add: is_charge_name_def lower_def)

lemma find_charge_col_SomeD: "find_charge_col ns = Some n \<Longrightarrow> n \<in> set ns \<and> is_charge_name n"
  by (auto simp: find_charge_col_def find_Some_iff)

lemma truthy_find_charge_col: "truthy (find_charge_col ns) \<longleftrightarrow> find_charge_col ns \<noteq> None"
proof (cases "find_charge_col ns")
  case None
  then show ?thesis by simp
next
  case (Some n)
  then have "is_charge_name n" by (simp add: find_charge_col_SomeD)
  then have "n \<noteq> []" using not_charge_name_Nil by auto
  with Some show ?thesis by simp
qed


lemma analyze_data_KeyError_iff:
  assumes "df st = Some t"
  shows "fst (analyze_data ev st) = Some KeyError \<longleftrightarrow> ''Churn'' \<notin> set (names t)"
proof (cases "get_column t ''Churn''")
  case None
  with assms show ?thesis
    by (simp add: analyze_data_def get_column_None_iff [symmetric])
next
  case (Some churn)
  then have in_names: "''Churn'' \<in> set (names t)"
    using get_column_None_iff [of t "''Churn''"] by simp
  have no_key: "get_column t (the (find_charge_col (names t))) \<noteq> None"
    if "truthy (find_charge_col (names t))"
  proof -
    from that obtain n where n: "find_charge_col (names t) = Some n"
      using truthy_find_charge_col by auto
    then have "n \<in> set (names t)" by (simp add: find_charge_col_SomeD)
    with n show ?thesis by (simp add: get_column_None_iff)
  qed
  have trav: "traverse f xs \<noteq> Inl KeyError" if "\<And>x. f x \<noteq> Inl KeyError" for f :: "cell \<Rightarrow> error + (cell \<times> cell)" and xs
    using that by (induction xs) (auto split: sum.splits)
  have "groupby_mean ev churn c \<noteq> Inl KeyError" for c
    unfolding groupby_mean_def by (rule trav) (auto split: option.splits)
  with assms Some no_key in_names show ?thesis
    by (auto simp: analyze_data_def Let_def split: option.splits sum.splits)
qed

lemma files_say [simp]: "files (say ms st) = files st"
  by (simp add: say_def)

lemma df_say [simp]: "df (say ms st) = df st"
  by (simp add: say_def)

lemma raw_data_say [simp]: "raw_data (say ms st) = raw_data st"
  by (simp add: say_def)

lemma results_say [simp]: "results (say ms st) = results st"
  by (simp add: say_def)

lemma console_say [simp]: "console (say ms st) = console st @ ms"
  by (simp add: say_def)

lemma files_load_data: "files (snd (load_data ev url fp st)) = files st"
  by (simp add: load_data_def Let_def split: sum.splits)

lemma fst_load_data: "fst (load_data ev url fp st) = None"
  by (simp add: load_data_def Let_def split: sum.splits)

lemma files_clean_data: "files (snd (clean_data ev st)) = files st"
  by (simp add: clean_data_def Let_def split: option.splits sum.splits)

lemma files_show_columns: "files (snd (show_columns st)) = files st"
  by (simp add: show_columns_def split: option.splits)

lemma files_create_daily_column: "files (snd (create_daily_column ev d st)) = files st"
  by (simp add: create_daily_column_def split: option.splits sum.splits prod.splits)

lemma files_analyze_data: "files (snd (analyze_data ev st)) = files st"
  by (simp add: analyze_data_def Let_def split: option.splits sum.splits)

lemma files_and_then:
  assumes "files (snd r) = fs" and "\<And>st. files (snd (f st)) = files st"
  shows "files (snd (and_then r f)) = fs"
  using assms by (cases r) (auto simp: and_then_def split: option.splits)

lemma and_then_error: "fst r \<noteq> None \<Longrightarrow> and_then r f = r"
  by (cases r) (auto simp: and_then_def)

lemma and_then_ok: "fst r = None \<Longrightarrow> and_then r f = f (snd r)"
  by (cases r) (auto simp: and_then_def)

lemma files_before_analysis: "files (snd (before_analysis ev url fp d st)) = files st"
  unfolding before_analysis_def
  by (intro files_and_then files_load_data files_clean_data files_show_columns
      files_create_daily_column)

lemma run_and_report_eq:
  "run_and_report ev url fp out d st =
     and_then (and_then (before_analysis ev url fp d st) (analyze_data ev))
       (generate_report ev out)"
  by (simp add: run_and_report_def before_analysis_def)

lemma names_stringify [simp]: "names (stringify ev t) = names t"
  by (simp add: names_def stringify_def stringify_column_def comp_def)

lemma names_fill_nulls [simp]: "names (fill_nulls t) = names t"
  by (simp add: names_def fill_nulls_def fill_text_column_def fill_numeric_column_def comp_def)

lemma names_drop_duplicates: "drop_duplicates t = Inr t' \<Longrightarrow> names t' = names t"
  by (auto simp: drop_duplicates_def names_def Let_def comp_def split: if_splits)

lemma clean_data_names:
  assumes "clean_data ev st = (None, st')" and "raw_data st = Some raw"
  shows "\<exists>t'. df st' = Some t' \<and> names t' = names raw"
  using assms
  by (auto simp: clean_data_def Let_def names_drop_duplicates split: sum.splits)

lemma names_set_column_list:
  "names (set_column t n dt vs) = (if n \<in> set (names t) then names t else names t @ [n])"
proof -
  have "map cname (map (\<lambda>c. if cname c = n then c\<lparr>dtype := dt, cells := vs\<rparr> else c) cs)
        = map cname cs" for cs
    by (induction cs) auto
  then show ?thesis by (simp add: set_column_def names_def)
qed

lemma names_set_column: "set (names (set_column t n dt vs)) = insert n (set (names t))"
  by (auto simp: names_set_column_list)

lemma create_daily_column_names:
  assumes "create_daily_column ev d st = (None, st')" and "df st = Some t"
  shows "\<exists>t'. df st' = Some t' \<and> set (names t') \<subseteq> insert ''DailyCharges'' (set (names t))"
  using assms
  by (auto simp: create_daily_column_def names_set_column split: option.splits sum.splits prod.splits)

lemma show_columns_ok: "show_columns st = (None, st') \<Longrightarrow> df st' = df st"
  by (auto simp: show_columns_def split: option.splits)

lemma and_then_NoneD:
  assumes "and_then r f = (None, st')"
  shows "\<exists>st. r = (None, st) \<and> f st = (None, st')"
  using assms by (cases r) (auto simp: and_then_def split: option.splits)

lemma before_analysis_names:
  assumes "before_analysis ev url fp d st = (None, s)"
    and "raw_data (snd (load_data ev url fp st)) = Some raw"
  shows "\<exists>t. df s = Some t \<and> set (names t) \<subseteq> insert ''DailyCharges'' (set (names raw))"
proof -
  from assms(1) obtain s3 where
    s3: "and_then (and_then (load_data ev url fp st)
           (clean_data ev)) show_columns = (None, s3)"
    and c: "create_daily_column ev d s3 = (None, s)"
    unfolding before_analysis_def using and_then_NoneD by blast
  from s3 obtain s2 where
    s2: "and_then (load_data ev url fp st) (clean_data ev) = (None, s2)"
    and sh: "show_columns s2 = (None, s3)"
    using and_then_NoneD by blast
  from s2 obtain s1 where
    s1: "load_data ev url fp st = (None, s1)"
    and cl: "clean_data ev s1 = (None, s2)"
    using and_then_NoneD by blast
  from s1 assms(2) have "raw_data s1 = Some raw" by simp
  with cl obtain t2 where t2: "df s2 = Some t2" "names t2 = names raw"
    using clean_data_names by blast
  from sh t2 have "df s3 = Some t2" by (simp add: show_columns_ok)
  with c obtain t where "df s = Some t" "set (names t) \<subseteq> insert ''DailyCharges'' (set (names t2))"
    using create_daily_column_names by blast
  with t2 show ?thesis by auto
qed

section \<open>The required column\<close>

text \<open>
  Claim C2. The analysis fails with the error for the missing column (the \<open>KeyError\<close>
  raised by \<open>analyze_data\<close>) exactly when the table has no column named \<open>Churn\<close>.
  Then the rest of the pipeline stops at the analysis with the state unchanged, and a
  run whose loaded table has no such column ends with an error and has written no
  report.
\<close>

theorem missing_churn_aborts:
  "(df st = Some t \<longrightarrow>
      (fst (analyze_data ev st) = Some KeyError \<longleftrightarrow> ''Churn'' \<notin> set (names t)))
   \<and> (df st = Some t \<and> ''Churn'' \<notin> set (names t) \<longrightarrow>
      and_then (analyze_data ev st) (generate_report ev out) = (Some KeyError, st))
   \<and> (raw_data (snd (load_data ev url fp st0)) = Some raw
        \<and> ''Churn'' \<notin> set (names raw) \<longrightarrow>
      fst (run_and_report ev url fp out d st0) \<noteq> None
      \<and> files (snd (run_and_report ev url fp out d st0)) = files st0)"
proof (intro conjI impI)
  assume "df st = Some t"
  then show "fst (analyze_data ev st) = Some KeyError \<longleftrightarrow> ''Churn'' \<notin> set (names t)"
    by (rule analyze_data_KeyError_iff)
next
  assume "df st = Some t \<and> ''Churn'' \<notin> set (names t)"
  then have "analyze_data ev st = (Some KeyError, st)"
    by (simp add: analyze_data_def get_column_None_iff [symmetric])
  then show "and_then (analyze_data ev st) (generate_report ev out) = (Some KeyError, st)"
    by (simp add: and_then_def)
next
  assume a: "raw_data (snd (load_data ev url fp st0)) = Some raw
        \<and> ''Churn'' \<notin> set (names raw)"
  let ?b = "before_analysis ev url fp d st0"
  have "fst (run_and_report ev url fp out d st0) \<noteq> None
      \<and> files (snd (run_and_report ev url fp out d st0)) = files st0"
  proof (cases "fst ?b")
    case (Some e)
    then have "run_and_report ev url fp out d st0 = ?b"
      by (simp add: run_and_report_eq and_then_error)
    with Some show ?thesis by (simp add: files_before_analysis)
  next
    case None
    then have b: "?b = (None, snd ?b)" by (metis prod.collapse)
    then obtain t' where t': "df (snd ?b) = Some t'"
      "set (names t') \<subseteq> insert ''DailyCharges'' (set (names raw))"
      using before_analysis_names a by blast
    with a have "''Churn'' \<notin> set (names t')" by auto
    with t' have "analyze_data ev (snd ?b) = (Some KeyError, snd ?b)"
      by (simp add: analyze_data_def get_column_None_iff [symmetric])
    with None have "run_and_report ev url fp out d st0 = (Some KeyError, snd ?b)"
      by (simp add: run_and_report_eq and_then_ok and_then_error)
    then show ?thesis by (simp add: files_before_analysis)
  qed
  then show "fst (run_and_report ev url fp out d st0) \<noteq> None"
    and "files (snd (run_and_report ev url fp out d st0)) = files st0" by simp_all
qed

theorem missing_churn_aborts_witness:
  "df ((init Map.empty)\<lparr>df := Some ex_no_churn\<rparr>) = Some ex_no_churn
   \<and> ''Churn'' \<notin> set (names ex_no_churn)
   \<and> raw_data (snd (load_data ex_env (Some ''nochurn'') None
        (init Map.empty))) = Some ex_no_churn
   \<and> fst (analyze_data ex_env ((init Map.empty)\<lparr>df := Some ex_no_churn\<rparr>))
       = Some KeyError
   \<and> and_then (analyze_data ex_env ((init Map.empty)\<lparr>df := Some ex_no_churn\<rparr>))
        (generate_report ex_env ''out'')
       = (Some KeyError, (init Map.empty)\<lparr>df := Some ex_no_churn\<rparr>)
   \<and> fst (run_and_report ex_env (Some ''nochurn'') None ''out'' 30 (init Map.empty)) \<noteq> None
   \<and> files (snd (run_and_report ex_env (Some ''nochurn'') None ''out'' 30 (init Map.empty)))
       = Map.empty"
proof -
  have h1: "df ((init Map.empty)\<lparr>df := Some ex_no_churn\<rparr>) = Some ex_no_churn"
    by simp
  have h2: "''Churn'' \<notin> set (names ex_no_churn)"
    by (simp add: names_def ex_no_churn_def)
  have h3: "raw_data (snd (load_data ex_env (Some ''nochurn'') None
        (init Map.empty))) = Some ex_no_churn"
    by (simp add: load_data_def ex_env_def)
  have h4: "files (init Map.empty) = Map.empty"
    by (simp add: init_def)
  from h1 h2 h3 h4
    missing_churn_aborts [where st = "(init Map.empty)\<lparr>df := Some ex_no_churn\<rparr>"
      and t = ex_no_churn and ev = ex_env and out = "''out''" and url = "Some ''nochurn''"
      and fp = None and ?st0.0 = "init Map.empty" and raw = ex_no_churn and d = 30]
  show ?thesis by simp
qed

section \<open>Failure to load\<close>

lemma load_data_failure:
  assumes "(truthy url \<and> http_get ev (the url) = Inl e)
      \<or> (\<not> truthy url \<and> truthy fp \<and> read_json ev (the fp) = Inl e)
      \<or> (\<not> truthy url \<and> \<not> truthy fp \<and> e = ValueError)"
  shows "load_data ev url fp st
         = (None, (say [MsgLoadError e] st)\<lparr>raw_data := None\<rparr>)"
  using assms by (auto simp: load_data_def)

text \<open>
  Claim C4, as the code has it. When no URL and no path is given, or the fetch or the
  parse fails, \<open>load_data\<close> itself does not fail: it prints the error, leaves no raw
  table and returns. The run is aborted by the next stage, \<open>clean_data\<close>, with an
  \<open>AttributeError\<close>, and no report is written.
\<close>

theorem load_failure_aborts_run:
  assumes "(truthy url \<and> http_get ev (the url) = Inl e)
      \<or> (\<not> truthy url \<and> truthy fp \<and> read_json ev (the fp) = Inl e)
      \<or> (\<not> truthy url \<and> \<not> truthy fp \<and> e = ValueError)"
  shows "load_data ev url fp st
           = (None, (say [MsgLoadError e] st)\<lparr>raw_data := None\<rparr>)
       \<and> run_and_report ev url fp out d st
           = (Some AttributeError, (say [MsgLoadError e] st)\<lparr>raw_data := None\<rparr>)
       \<and> files (snd (run_and_report ev url fp out d st)) = files st"
proof -
  let ?s = "(say [MsgLoadError e] st)\<lparr>raw_data := None\<rparr>"
  have l: "load_data ev url fp st = (None, ?s)"
    using assms by (rule load_data_failure)
  have c: "clean_data ev ?s = (Some AttributeError, ?s)"
    by (simp add: clean_data_def)
  have "run_and_report ev url fp out d st = (Some AttributeError, ?s)"
    by (simp add: run_and_report_def l c and_then_def)
  with l show ?thesis by simp
qed

theorem load_failure_aborts_run_witness:
  "\<not> truthy None
   \<and> load_data ex_env None None (init Map.empty)
       = (None, (say [MsgLoadError ValueError] (init Map.empty))\<lparr>raw_data := None\<rparr>)
   \<and> run_and_report ex_env None None ''out'' 30 (init Map.empty)
       = (Some AttributeError, (say [MsgLoadError ValueError] (init Map.empty))\<lparr>raw_data := None\<rparr>)
   \<and> files (snd (run_and_report ex_env None None ''out'' 30 (init Map.empty)))
       = files (init Map.empty)
   \<and> truthy (Some ''missing'') \<and> http_get ex_env ''missing'' = Inl SourceFailure
   \<and> run_and_report ex_env (Some ''missing'') None ''out'' 30 (init Map.empty)
       = (Some AttributeError, (say [MsgLoadError SourceFailure] (init Map.empty))\<lparr>raw_data := None\<rparr>)"
proof -
  have h1: "\<not> truthy None" by simp
  have h2: "truthy (Some ''missing'')" by simp
  have h3: "http_get ex_env (the (Some ''missing'')) = Inl SourceFailure"
    by (simp add: ex_env_def)
  from h1 have a: "(truthy None \<and> http_get ex_env (the None) = Inl ValueError)
      \<or> (\<not> truthy None \<and> truthy None \<and> read_json ex_env (the None) = Inl ValueError)
      \<or> (\<not> truthy None \<and> \<not> truthy None \<and> ValueError = ValueError)" by simp
  from h2 h3 have b: "(truthy (Some ''missing'') \<and> http_get ex_env (the (Some ''missing'')) = Inl SourceFailure)
      \<or> (\<not> truthy (Some ''missing'') \<and> truthy None \<and> read_json ex_env (the None) = Inl SourceFailure)
      \<or> (\<not> truthy (Some ''missing'') \<and> \<not> truthy None \<and> SourceFailure = ValueError)" by simp
  from load_failure_aborts_run [OF a, of "init Map.empty" "''out''" 30]
    load_failure_aborts_run [OF b, of "init Map.empty" "''out''" 30] h1 h2 h3
  show ?thesis by simp
qed

text \<open>
  Claim C4 as stated fails: with neither a URL nor a path the load operation returns
  without an error, and the error that ends the run is the cleaner's.
\<close>

theorem load_failure_counterexample:
  "fst (load_data ex_env None None (init Map.empty)) = None
   \<and> fst (run_and_report ex_env None None ''out'' 30 (init Map.empty)) = Some AttributeError"
  by (simp add: load_data_def run_and_report_def and_then_def clean_data_def say_def init_def)

section \<open>The charge column\<close>










section \<open>The churn rate\<close>








lemma count_py_Text: "count_py xs (Text s) = count_list xs (Text s)"
proof -
  have "py_key x = Text s \<longleftrightarrow> x = Text s" for x by (cases x) auto
  then show ?thesis by (induction xs) (auto simp: count_py_def)
qed
















section \<open>The daily column\<close>

lemma find_map_update:
  "find (\<lambda>c. cname c = n) (map (\<lambda>c. if cname c = m then c\<lparr>dtype := dt, cells := vs\<rparr> else c) cs)
   = (if n = m then map_option (\<lambda>c. c\<lparr>dtype := dt, cells := vs\<rparr>) (find (\<lambda>c. cname c = n) cs)
      else find (\<lambda>c. cname c = n) cs)"
  by (induction cs) auto

lemma find_snoc:
  "find P (xs @ [y]) = (case find P xs of Some x \<Rightarrow> Some x | None \<Rightarrow> if P y then Some y else None)"
  by (induction xs) auto

lemma get_column_set_column_other:
  "n \<noteq> m \<Longrightarrow> get_column (set_column t m dt vs) n = get_column t n"
  by (auto simp: get_column_def set_column_def find_map_update find_snoc
      split: option.splits)


lemma nrows_set_column [simp]: "nrows (set_column t m dt vs) = nrows t"
  by (simp add: set_column_def)

lemma cols_set_column_new:
  "m \<notin> set (names t) \<Longrightarrow> cols (set_column t m dt vs) = cols t @ [\<lparr>cname = m, dtype = dt, cells = vs\<rparr>]"
  by (simp add: set_column_def)

lemma create_daily_column_cases:
  assumes "df st = Some t"
  shows "(get_column t ''MonthlyCharges'' = None \<and> create_daily_column ev d st = (None, st))
       \<or> (\<exists>mc e. get_column t ''MonthlyCharges'' = Some mc \<and> divide_column ev mc d = Inl e
             \<and> create_daily_column ev d st = (Some e, st))
       \<or> (\<exists>mc dt vs. get_column t ''MonthlyCharges'' = Some mc \<and> divide_column ev mc d = Inr (dt, vs)
             \<and> create_daily_column ev d st
                 = (None, say [MsgDailyCreated] (st\<lparr>df := Some (set_column t ''DailyCharges'' dt vs)\<rparr>)))"
  using assms
  by (auto simp: create_daily_column_def split: option.splits sum.splits)
















text \<open>
  Claim C9, as the code has it. Whatever the operation returns, the row count is
  unchanged, the raw table is untouched, and every column with a name other than
  \<open>DailyCharges\<close> is as before; when no column had that name, all former columns are
  kept in their places and the new one comes last.
\<close>

theorem daily_column_frame:
  assumes "df st = Some t" and "create_daily_column ev d st = (e, st')"
  shows "\<exists>t'. df st' = Some t' \<and> nrows t' = nrows t
     \<and> (\<forall>n. n \<noteq> ''DailyCharges'' \<longrightarrow> get_column t' n = get_column t n)
     \<and> (''DailyCharges'' \<notin> set (names t) \<longrightarrow> take (length (cols t)) (cols t') = cols t)
     \<and> set (names t) \<subseteq> set (names t')
     \<and> raw_data st' = raw_data st"
proof -
  from create_daily_column_cases [OF assms(1), of ev d] assms(2)
  consider "st' = st"
    | dt vs where "st' = say [MsgDailyCreated] (st\<lparr>df := Some (set_column t ''DailyCharges'' dt vs)\<rparr>)"
    by auto
  then show ?thesis
  proof cases
    case 1
    with assms(1) show ?thesis by simp
  next
    case 2
    then show ?thesis
      by (auto simp: get_column_set_column_other names_set_column cols_set_column_new)
  qed
qed

theorem daily_column_frame_witness:
  "df ((init Map.empty)\<lparr>df := Some ex_scenario\<rparr>) = Some ex_scenario
   \<and> fst (create_daily_column ex_env 30 ((init Map.empty)\<lparr>df := Some ex_scenario\<rparr>)) = None
   \<and> ''Churn'' \<noteq> ''DailyCharges''
   \<and> ''DailyCharges'' \<notin> set (names ex_scenario)
   \<and> nrows (the (df (snd (create_daily_column ex_env 30 ((init Map.empty)\<lparr>df := Some ex_scenario\<rparr>))))) = 3
   \<and> get_column (the (df (snd (create_daily_column ex_env 30 ((init Map.empty)\<lparr>df := Some ex_scenario\<rparr>)))))
        ''Churn'' = get_column ex_scenario ''Churn''
   \<and> take 2 (cols (the (df (snd (create_daily_column ex_env 30 ((init Map.empty)\<lparr>df := Some ex_scenario\<rparr>))))))
       = cols ex_scenario"
proof -
  let ?st = "(init Map.empty)\<lparr>df := Some ex_scenario\<rparr>"
  have h1: "df ?st = Some ex_scenario" by simp
  have h2: "create_daily_column ex_env 30 ?st
            = (fst (create_daily_column ex_env 30 ?st), snd (create_daily_column ex_env 30 ?st))" by simp
  have h3: "fst (create_daily_column ex_env 30 ?st) = None"
    by code_simp
  have h4: "''DailyCharges'' \<notin> set (names ex_scenario)" by (simp add: names_def ex_scenario_def)
  have h5: "nrows ex_scenario = 3" "length (cols ex_scenario) = 2" by (simp_all add: ex_scenario_def)
  from daily_column_frame [OF h1 h2] obtain t' where
    "df (snd (create_daily_column ex_env 30 ?st)) = Some t'" "nrows t' = nrows ex_scenario"
    "\<forall>n. n \<noteq> ''DailyCharges'' \<longrightarrow> get_column t' n = get_column ex_scenario n"
    "''DailyCharges'' \<notin> set (names ex_scenario) \<longrightarrow> take (length (cols ex_scenario)) (cols t') = cols ex_scenario"
    by blast
  with h1 h3 h4 h5 show ?thesis by simp
qed

text \<open>
  Claim C9 as stated fails on a table that already has a column named \<open>DailyCharges\<close>:
  its cells are replaced.
\<close>

theorem daily_column_counterexample:
  "map_option cells (get_column ex_daily ''DailyCharges'') = Some [FloatNum (Fin 5)]
   \<and> fst (create_daily_column ex_env 30 ((init Map.empty)\<lparr>df := Some ex_daily\<rparr>)) = None
   \<and> map_option cells
        (get_column (the (df (snd (create_daily_column ex_env 30 ((init Map.empty)\<lparr>df := Some ex_daily\<rparr>)))))
           ''DailyCharges'')
       = Some [FloatNum (Fin 1)]"
  by code_simp

section \<open>Removing duplicate rows\<close>

lemma select_Nil [simp]: "select [] xs = []" "select ks [] = []"
  by (simp_all add: select_def)

lemma select_Cons [simp]:
  "select (k # ks) (x # xs) = (if k then x # select ks xs else select ks xs)"
  by (simp add: select_def)

lemma select_map: "select ks (map f xs) = map f (select ks xs)"
proof (induction ks arbitrary: xs)
  case Nil
  then show ?case by simp
next
  case (Cons k ks)
  then show ?case by (cases xs) auto
qed

lemma length_select:
  "length ks = length xs \<Longrightarrow> length (select ks xs) = length (filter id ks)"
  by (induction ks xs rule: list_induct2) auto

lemma set_select: "set (select ks xs) \<subseteq> set xs"
proof (induction ks arbitrary: xs)
  case Nil
  then show ?case by simp
next
  case (Cons k ks)
  then show ?case by (cases xs) auto
qed

lemma select_nth:
  "length ks = length xs \<Longrightarrow> select ks xs = map (\<lambda>i. xs ! i) (select ks [0..<length xs])"
proof -
  assume "length ks = length xs"
  have "select ks xs = select ks (map (\<lambda>i. xs ! i) [0..<length xs])"
    by (simp add: map_nth)
  then show ?thesis by (simp only: select_map)
qed

lemma length_keep_first [simp]: "length (keep_first seen ks) = length ks"
  by (induction ks arbitrary: seen) auto

lemma keep_first_nth:
  "i < length ks \<Longrightarrow> keep_first seen ks ! i \<longleftrightarrow> ks ! i \<notin> set seen \<union> set (take i ks)"
proof (induction ks arbitrary: seen i)
  case Nil
  then show ?case by simp
next
  case (Cons k ks)
  then show ?case by (cases i) auto
qed

lemma keep_first_nth_first:
  assumes "i < length ks"
  shows "keep_first [] ks ! i \<longleftrightarrow> (\<forall>j < i. ks ! j \<noteq> ks ! i)"
proof -
  have "ks ! i \<in> set (take i ks) \<longleftrightarrow> (\<exists>j < i. ks ! j = ks ! i)"
    using assms by (auto simp: in_set_conv_nth)
  with assms show ?thesis by (auto simp: keep_first_nth)
qed

lemma select_keep_first_distinct:
  "distinct (select (keep_first seen ks) ks) \<and> set (select (keep_first seen ks) ks) \<inter> set seen = {}"
proof (induction ks arbitrary: seen)
  case Nil
  then show ?case by simp
next
  case (Cons k ks)
  from Cons [of "k # seen"] show ?case by auto
qed

lemma set_select_keep_first:
  "set (select (keep_first seen ks) ks) = set ks - set seen"
proof (induction ks arbitrary: seen)
  case Nil
  then show ?case by simp
next
  case (Cons k ks)
  from Cons [of "k # seen"] show ?case by auto
qed

lemma keep_first_distinct:
  "distinct ks \<Longrightarrow> set ks \<inter> set seen = {} \<Longrightarrow> keep_first seen ks = replicate (length ks) True"
proof (induction ks arbitrary: seen)
  case Nil
  then show ?case by simp
next
  case (Cons k ks)
  from Cons.prems have "keep_first (k # seen) ks = replicate (length ks) True"
    by (intro Cons.IH) auto
  with Cons.prems show ?case by simp
qed

lemma select_all: "length xs \<le> n \<Longrightarrow> select (replicate n True) xs = xs"
proof (induction xs arbitrary: n)
  case Nil
  then show ?case by simp
next
  case (Cons x xs)
  then show ?case by (cases n) auto
qed

lemma length_rows_of [simp]: "length (rows_of t) = nrows t"
  by (simp add: rows_of_def)

lemma length_row_keys [simp]: "length (row_keys t) = nrows t"
  by (simp add: row_keys_def)

lemma drop_duplicates_cases:
  assumes "drop_duplicates t = Inr t'"
  shows "((nrows t = 0 \<or> cols t = []) \<and> t' = t)
       \<or> (nrows t \<noteq> 0 \<and> cols t \<noteq> []
           \<and> (length (cols t) = 1 \<or> (\<forall>c \<in> set (cols t). \<forall>x \<in> set (cells c). \<not> unhashable x))
           \<and> t' = \<lparr>nrows = length (filter id (keep_first [] (row_keys t))),
                    cols = map (\<lambda>c. c\<lparr>cells := select (keep_first [] (row_keys t)) (cells c)\<rparr>) (cols t)\<rparr>)"
  using assms by (auto simp: drop_duplicates_def Let_def split: if_splits)

lemma rows_of_select:
  assumes rect: "\<forall>c \<in> set (cols t). length (cells c) = nrows t"
    and len: "length ks = nrows t"
  shows "rows_of \<lparr>nrows = length (filter id ks),
                  cols = map (\<lambda>c. c\<lparr>cells := select ks (cells c)\<rparr>) (cols t)\<rparr>
         = select ks (rows_of t)"
proof -
  let ?js = "select ks [0..<nrows t]"
  let ?g = "\<lambda>i. map (\<lambda>c. cells c ! i) (cols t)"
  have n: "length ?js = length (filter id ks)"
    using len by (simp add: length_select)
  have col: "select ks (cells c) = map (\<lambda>i. cells c ! i) ?js" if "c \<in> set (cols t)" for c
    using that rect len select_nth [of ks "cells c"] by simp
  have "rows_of \<lparr>nrows = length (filter id ks),
                  cols = map (\<lambda>c. c\<lparr>cells := select ks (cells c)\<rparr>) (cols t)\<rparr>
        = map (\<lambda>i. map (\<lambda>c. select ks (cells c) ! i) (cols t)) [0..<length ?js]"
    by (simp add: rows_of_def n comp_def)
  also have "\<dots> = map (\<lambda>i. map (\<lambda>c. cells c ! (?js ! i)) (cols t)) [0..<length ?js]"
    using col by (intro map_cong refl) simp
  also have "\<dots> = map ?g (map (\<lambda>i. ?js ! i) [0..<length ?js])"
    by (simp add: comp_def)
  also have "\<dots> = map ?g ?js"
    by (simp only: map_nth)
  also have "\<dots> = select ks (rows_of t)"
    by (simp add: rows_of_def select_map)
  finally show ?thesis .
qed

lemma rows_of_drop_duplicates:
  assumes "\<forall>c \<in> set (cols t). length (cells c) = nrows t"
    and "drop_duplicates t = Inr t'" and "cols t \<noteq> []"
  shows "rows_of t' = select (keep_first [] (row_keys t)) (rows_of t)"
proof -
  from drop_duplicates_cases [OF assms(2)] assms(3)
  consider "nrows t = 0" "t' = t"
    | "t' = \<lparr>nrows = length (filter id (keep_first [] (row_keys t))),
             cols = map (\<lambda>c. c\<lparr>cells := select (keep_first [] (row_keys t)) (cells c)\<rparr>) (cols t)\<rparr>"
    by auto
  then show ?thesis
  proof cases
    case 1
    then show ?thesis by (simp add: rows_of_def)
  next
    case 2
    with assms(1) show ?thesis by (simp add: rows_of_select)
  qed
qed

lemma length_cols_drop_duplicates:
  "drop_duplicates t = Inr t' \<Longrightarrow> length (cols t') = length (cols t)"
  using drop_duplicates_cases [of t t'] by auto

lemma row_keys_drop_duplicates:
  assumes "\<forall>c \<in> set (cols t). length (cells c) = nrows t"
    and "drop_duplicates t = Inr t'" and "cols t \<noteq> []"
  shows "row_keys t' = select (keep_first [] (row_keys t)) (row_keys t)"
  using rows_of_drop_duplicates [OF assms] length_cols_drop_duplicates [OF assms(2)]
  by (simp add: row_keys_def select_map)

lemma rect_drop_duplicates:
  assumes "\<forall>c \<in> set (cols t). length (cells c) = nrows t" and "drop_duplicates t = Inr t'"
  shows "\<forall>c \<in> set (cols t'). length (cells c) = nrows t'"
  using drop_duplicates_cases [OF assms(2)] assms(1)
  by (auto simp: length_select)

lemma clean_data_NoneD:
  assumes "raw_data st = Some raw" and "clean_data ev st = (None, st')"
  shows "\<exists>t2. drop_duplicates (stringify ev raw) = Inr t2 \<and> df st' = Some (fill_nulls t2)
           \<and> raw_data st' = Some raw"
  using assms by (auto simp: clean_data_def Let_def split: sum.splits)

lemma nrows_stringify [simp]: "nrows (stringify ev t) = nrows t"
  by (simp add: stringify_def)

lemma cols_stringify_Nil [simp]: "cols (stringify ev t) = [] \<longleftrightarrow> cols t = []"
  by (simp add: stringify_def)

lemma rect_stringify:
  assumes "\<forall>c \<in> set (cols t). length (cells c) = nrows t"
  shows "\<forall>c \<in> set (cols (stringify ev t)). length (cells c) = nrows t"
  using assms by (auto simp: stringify_def stringify_column_def)

lemma wf_table_rect: "wf_table t \<Longrightarrow> \<forall>c \<in> set (cols t). length (cells c) = nrows t"
  by (simp add: wf_table_def)

lemma clean_ex_scenario:
  "fst (clean_data ex_env ((init Map.empty)\<lparr>raw_data := Some ex_scenario\<rparr>)) = None"
  "df (snd (clean_data ex_env ((init Map.empty)\<lparr>raw_data := Some ex_scenario\<rparr>)))
     = Some ex_scenario_clean"
  by code_simp+

lemma wf_ex_scenario: "wf_table ex_scenario"
  by code_simp

text \<open>
  A column of \<open>'a'\<close>, \<open>None\<close> and NaN keeps its three rows, two of which the filling then
  makes equal; a column of lists loses its repeated list; with a second column the
  lists make the cleaning fail.
\<close>

lemma clean_one_column:
  "df (snd (clean_data ex_env ((init Map.empty)\<lparr>raw_data := Some ex_one_column\<rparr>)))
     = Some \<lparr>nrows = 3, cols = [\<lparr>cname = ''x'', dtype = Object,
          cells = [Text ''a'', Text ''Desconocido'', Text ''Desconocido'']\<rparr>]\<rparr>"
  "df (snd (clean_data ex_env ((init Map.empty)\<lparr>raw_data := Some ex_list_column\<rparr>)))
     = Some \<lparr>nrows = 2, cols = [\<lparr>cname = ''x'', dtype = Object,
          cells = [Listv ''[1]'', Listv ''[2]'']\<rparr>]\<rparr>"
  "fst (clean_data ex_env ((init Map.empty)\<lparr>raw_data := Some ex_list_columns\<rparr>)) = Some TypeError"
  by code_simp+

text \<open>
  Claim C10, as the code has it. In a successful cleaning of a well-formed raw table
  with at least one column, row \<open>i\<close> of the stringified table survives exactly when no
  earlier row is equal to it in every column, and the surviving rows are the rows
  marked in this way, taken in their order; the survivors are pairwise different and
  every row has an equal survivor. Two rows are equal when their cells are equal as
  Python has it, where the missing values of a table with several columns are all
  equal, and in a table of one column \<open>None\<close> and NaN are different.
\<close>

theorem first_occurrences_kept:
  assumes "raw_data st = Some raw" and "wf_table raw" and "cols raw \<noteq> []"
    and "clean_data ev st = (None, st')"
  shows "\<exists>t2 keep. drop_duplicates (stringify ev raw) = Inr t2
     \<and> df st' = Some (fill_nulls t2)
     \<and> length keep = nrows raw
     \<and> (\<forall>i < nrows raw. keep ! i \<longleftrightarrow>
          (\<forall>j < i. row_keys (stringify ev raw) ! j \<noteq> row_keys (stringify ev raw) ! i))
     \<and> rows_of t2 = map snd (filter fst (zip keep (rows_of (stringify ev raw))))
     \<and> distinct (row_keys t2)
     \<and> set (row_keys t2) = set (row_keys (stringify ev raw))"
proof -
  let ?t1 = "stringify ev raw"
  let ?keep = "keep_first [] (row_keys ?t1)"
  from assms(1,4) obtain t2 where t2: "drop_duplicates ?t1 = Inr t2" "df st' = Some (fill_nulls t2)"
    using clean_data_NoneD by blast
  have rect: "\<forall>c \<in> set (cols ?t1). length (cells c) = nrows ?t1"
    using assms(2) by (simp add: rect_stringify wf_table_rect)
  have ne: "cols ?t1 \<noteq> []" using assms(3) by simp
  have rows: "rows_of t2 = select ?keep (rows_of ?t1)"
    using rect t2(1) ne by (rule rows_of_drop_duplicates)
  have keys: "row_keys t2 = select ?keep (row_keys ?t1)"
    using rect t2(1) ne by (rule row_keys_drop_duplicates)
  have first: "\<forall>i < nrows raw. ?keep ! i \<longleftrightarrow>
          (\<forall>j < i. row_keys ?t1 ! j \<noteq> row_keys ?t1 ! i)"
    by (simp add: keep_first_nth_first)
  have "distinct (row_keys t2)" "set (row_keys t2) = set (row_keys ?t1)"
    using select_keep_first_distinct [of "[]" "row_keys ?t1"]
      set_select_keep_first [of "[]" "row_keys ?t1"] keys by simp_all
  with t2 rows first show ?thesis
    by (intro exI [of _ t2] exI [of _ ?keep]) (simp add: select_def)
qed

theorem first_occurrences_kept_witness:
  "raw_data ((init Map.empty)\<lparr>raw_data := Some ex_scenario\<rparr>) = Some ex_scenario
   \<and> wf_table ex_scenario \<and> cols ex_scenario \<noteq> []
   \<and> fst (clean_data ex_env ((init Map.empty)\<lparr>raw_data := Some ex_scenario\<rparr>)) = None
   \<and> drop_duplicates (stringify ex_env ex_scenario) = Inr ex_scenario_clean
   \<and> rows_of ex_scenario_clean
       = [[Text ''Yes'', FloatNum (Fin 70)], [Text ''No'', FloatNum (Fin 50)]]
   \<and> distinct (row_keys ex_scenario_clean)
   \<and> set (row_keys ex_scenario_clean) = set (row_keys (stringify ex_env ex_scenario))
   \<and> raw_data ((init Map.empty)\<lparr>raw_data := Some ex_one_column\<rparr>) = Some ex_one_column
   \<and> wf_table ex_one_column \<and> cols ex_one_column \<noteq> []
   \<and> fst (clean_data ex_env ((init Map.empty)\<lparr>raw_data := Some ex_one_column\<rparr>)) = None
   \<and> drop_duplicates (stringify ex_env ex_one_column) = Inr ex_one_column
   \<and> distinct (row_keys ex_one_column)"
proof -
  let ?st = "(init Map.empty)\<lparr>raw_data := Some ex_scenario\<rparr>"
  let ?res = "clean_data ex_env ?st"
  let ?so = "(init Map.empty)\<lparr>raw_data := Some ex_one_column\<rparr>"
  let ?reso = "clean_data ex_env ?so"
  have h1: "raw_data ?st = Some ex_scenario" by simp
  have h3: "cols ex_scenario \<noteq> []" by (simp add: ex_scenario_def)
  have h4: "?res = (None, snd ?res)" using clean_ex_scenario(1) by (metis prod.collapse)
  have d: "drop_duplicates (stringify ex_env ex_scenario) = Inr ex_scenario_clean" by code_simp
  have r: "rows_of ex_scenario_clean
       = [[Text ''Yes'', FloatNum (Fin 70)], [Text ''No'', FloatNum (Fin 50)]]" by code_simp
  from first_occurrences_kept [OF h1 wf_ex_scenario h3 h4] obtain t2 where
    "drop_duplicates (stringify ex_env ex_scenario) = Inr t2" "distinct (row_keys t2)"
    "set (row_keys t2) = set (row_keys (stringify ex_env ex_scenario))"
    by blast
  with d have k: "distinct (row_keys ex_scenario_clean)"
    "set (row_keys ex_scenario_clean) = set (row_keys (stringify ex_env ex_scenario))"
    by simp_all
  have o1: "raw_data ?so = Some ex_one_column" by simp
  have o2: "wf_table ex_one_column" by code_simp
  have o3: "cols ex_one_column \<noteq> []" by (simp add: ex_one_column_def)
  have o4: "fst ?reso = None" by code_simp
  then have o4': "?reso = (None, snd ?reso)" by (metis prod.collapse)
  have od: "drop_duplicates (stringify ex_env ex_one_column) = Inr ex_one_column" by code_simp
  from first_occurrences_kept [OF o1 o2 o3 o4'] obtain u2 where
    "drop_duplicates (stringify ex_env ex_one_column) = Inr u2" "distinct (row_keys u2)"
    by blast
  with od have ok: "distinct (row_keys ex_one_column)" by simp
  show ?thesis
    by (intro conjI) (fact h1 wf_ex_scenario h3 clean_ex_scenario(1) d r k o1 o2 o3 o4 od ok)+
qed

text \<open>
  Claim C10 as stated fails on a raw table without columns: its two rows are equal,
  and both are kept.
\<close>

theorem first_occurrences_counterexample:
  "rows_of ex_no_columns = [[], []]
   \<and> clean_data ex_env ((init Map.empty)\<lparr>raw_data := Some ex_no_columns\<rparr>)
       = (None, say [MsgDuplicatesRemoved 0 2, MsgClean]
            ((init Map.empty)\<lparr>raw_data := Some ex_no_columns, df := Some ex_no_columns\<rparr>))"
  by (simp add: rows_of_def upt_rec clean_data_def stringify_def drop_duplicates_def fill_nulls_def
      nested_msgs_def say_def init_def ex_no_columns_def)

section \<open>The cleaned table\<close>

lemma cols_fill_nulls:
  "cols (fill_nulls t) = map (\<lambda>c. fill_numeric_column (fill_text_column c)) (cols t)"
  by (simp add: fill_nulls_def comp_def)

lemma nrows_fill_nulls [simp]: "nrows (fill_nulls t) = nrows t"
  by (simp add: fill_nulls_def)

lemma fill_column_shape [simp]:
  "cname (fill_numeric_column (fill_text_column c)) = cname c"
  "dtype (fill_numeric_column (fill_text_column c)) = dtype c"
  "length (cells (fill_numeric_column (fill_text_column c))) = length (cells c)"
  by (simp_all add: fill_numeric_column_def fill_text_column_def)

lemma fill_column_cells:
  "cells (fill_numeric_column (fill_text_column c)) =
     map (\<lambda>x. if isna x then (case dtype c of Object \<Rightarrow> Text ''Desconocido''
                                | Float64 \<Rightarrow> FloatNum (Fin 0) | Int64 \<Rightarrow> IntNum 0 | Bool \<Rightarrow> x)
               else x) (cells c)"
proof (cases "dtype c")
  case Bool
  then have "fill_numeric_column (fill_text_column c) = c"
    by (simp add: fill_numeric_column_def fill_text_column_def)
  moreover have "map (\<lambda>x. if isna x then x else x) (cells c) = cells c"
    by (simp add: map_idI)
  ultimately show ?thesis using Bool by (simp cong: if_cong)
qed (simp_all add: fill_numeric_column_def fill_text_column_def fillna_def)

lemma fill_column_id:
  assumes "\<forall>x \<in> set (cells c). \<not> isna x"
  shows "fill_numeric_column (fill_text_column c) = c"
proof -
  have "map (fillna v) (cells c) = cells c" for v
    using assms by (simp add: fillna_def map_idI)
  then show ?thesis by (simp add: fill_numeric_column_def fill_text_column_def)
qed

lemma fill_nulls_id:
  assumes "\<forall>c \<in> set (cols t). \<forall>x \<in> set (cells c). \<not> isna x"
  shows "fill_nulls t = t"
proof -
  have "map (\<lambda>c. fill_numeric_column (fill_text_column c)) (cols t) = cols t"
    using assms by (simp add: fill_column_id map_idI)
  then have "cols (fill_nulls t) = cols t" by (simp add: cols_fill_nulls)
  then show ?thesis by (simp add: fill_nulls_def)
qed

lemma fill_column_notna:
  assumes "x \<in> set (cells (fill_numeric_column (fill_text_column c)))" and "dtype c \<noteq> Bool"
  shows "\<not> isna x"
  using assms by (cases "dtype c") (auto simp: fill_column_cells)

lemma fill_column_no_dict:
  assumes "x \<in> set (cells (fill_numeric_column (fill_text_column c)))"
    and "\<forall>y \<in> set (cells c). \<not> unhashable y"
  shows "\<not> unhashable x"
  using assms by (cases "dtype c") (auto simp: fill_column_cells)

lemma fill_column_ok:
  assumes "\<forall>x \<in> set (cells c). cell_ok (dtype c) x"
  shows "\<forall>x \<in> set (cells (fill_numeric_column (fill_text_column c))). cell_ok (dtype c) x"
  using assms by (cases "dtype c") (auto simp: fill_column_cells)

lemma wf_fill_nulls:
  assumes "wf_table t"
  shows "wf_table (fill_nulls t)"
proof -
  have "distinct (names (fill_nulls t))" using assms by (simp add: wf_table_def)
  moreover have "length (cells c') = nrows (fill_nulls t)
       \<and> (\<forall>x \<in> set (cells c'). cell_ok (dtype c') x)"
    if "c' \<in> set (cols (fill_nulls t))" for c'
  proof -
    from that obtain c where c: "c \<in> set (cols t)"
      "c' = fill_numeric_column (fill_text_column c)"
      by (auto simp: cols_fill_nulls)
    with assms have "length (cells c) = nrows t" "\<forall>x \<in> set (cells c). cell_ok (dtype c) x"
      by (simp_all add: wf_table_def)
    with c(2) show ?thesis using fill_column_ok [of c] by simp
  qed
  ultimately show ?thesis unfolding wf_table_def by blast
qed

lemma stringify_column_shape [simp]:
  "cname (stringify_column ev c) = cname c"
  "length (cells (stringify_column ev c)) = length (cells c)"
  "dtype (stringify_column ev c) = (if has_dict c then Object else dtype c)"
  by (simp_all add: stringify_column_def)

lemma stringify_column_no_dict:
  "x \<in> set (cells (stringify_column ev c)) \<Longrightarrow> \<not> is_dict x"
  by (auto simp: stringify_column_def has_dict_def astype_str_def split: if_splits)

lemma stringify_column_notna:
  assumes "x \<in> set (cells (stringify_column ev c))"
    and "\<forall>y \<in> set (cells c). \<not> isna y"
  shows "\<not> isna x"
  using assms by (auto simp: stringify_column_def astype_str_def split: if_splits)

lemma stringify_column_ok:
  assumes "\<forall>x \<in> set (cells c). cell_ok (dtype c) x"
  shows "\<forall>x \<in> set (cells (stringify_column ev c)). cell_ok (dtype (stringify_column ev c)) x"
  using assms by (auto simp: stringify_column_def)

lemma wf_stringify:
  assumes "wf_table t"
  shows "wf_table (stringify ev t)"
proof -
  have "distinct (names (stringify ev t))" using assms by (simp add: wf_table_def)
  moreover have "length (cells c') = nrows (stringify ev t)
       \<and> (\<forall>x \<in> set (cells c'). cell_ok (dtype c') x)"
    if "c' \<in> set (cols (stringify ev t))" for c'
  proof -
    from that obtain c where c: "c \<in> set (cols t)" "c' = stringify_column ev c"
      by (auto simp: stringify_def)
    with assms have "length (cells c) = nrows t" "\<forall>x \<in> set (cells c). cell_ok (dtype c) x"
      by (simp_all add: wf_table_def)
    with c(2) show ?thesis using stringify_column_ok [of c ev] by simp
  qed
  ultimately show ?thesis unfolding wf_table_def by blast
qed

lemma drop_duplicates_columns:
  assumes "drop_duplicates t = Inr t'"
  shows "length (cols t') = length (cols t)
       \<and> (\<forall>j < length (cols t). cname (cols t' ! j) = cname (cols t ! j)
             \<and> dtype (cols t' ! j) = dtype (cols t ! j)
             \<and> set (cells (cols t' ! j)) \<subseteq> set (cells (cols t ! j)))"
proof -
  from drop_duplicates_cases [OF assms]
  consider "t' = t"
    | "cols t' = map (\<lambda>c. c\<lparr>cells := select (keep_first [] (row_keys t)) (cells c)\<rparr>) (cols t)"
    by auto
  then show ?thesis
  proof cases
    case 1
    then show ?thesis by simp
  next
    case 2
    then show ?thesis by (simp add: set_select)
  qed
qed

lemma drop_duplicates_column:
  assumes "drop_duplicates t = Inr t'" and "c' \<in> set (cols t')"
  shows "\<exists>c \<in> set (cols t). cname c' = cname c \<and> dtype c' = dtype c
            \<and> set (cells c') \<subseteq> set (cells c)"
proof -
  from assms(2) obtain j where j: "j < length (cols t')" "cols t' ! j = c'"
    by (auto simp: in_set_conv_nth)
  with drop_duplicates_columns [OF assms(1)] have "j < length (cols t)"
    "cname c' = cname (cols t ! j)" "dtype c' = dtype (cols t ! j)"
    "set (cells c') \<subseteq> set (cells (cols t ! j))"
    by auto
  then show ?thesis using nth_mem by blast
qed

lemma wf_drop_duplicates:
  assumes "wf_table t" and "drop_duplicates t = Inr t'"
  shows "wf_table t'"
proof -
  have "distinct (names t')" using assms by (simp add: names_drop_duplicates wf_table_def)
  moreover have "\<forall>c \<in> set (cols t'). length (cells c) = nrows t'"
    using assms(2) by (rule rect_drop_duplicates [rotated]) (use assms(1) in \<open>simp add: wf_table_def\<close>)
  moreover have "\<forall>x \<in> set (cells c'). cell_ok (dtype c') x" if "c' \<in> set (cols t')" for c'
  proof -
    from drop_duplicates_column [OF assms(2) that] obtain c where
      c: "c \<in> set (cols t)" "dtype c' = dtype c" "set (cells c') \<subseteq> set (cells c)"
      by blast
    with assms(1) show ?thesis by (auto simp: wf_table_def)
  qed
  ultimately show ?thesis by (simp add: wf_table_def)
qed

lemma fill_column_cell:
  assumes "x \<in> set (cells (fill_numeric_column (fill_text_column c)))"
  shows "x \<in> set (cells c) \<or> x = Text ''Desconocido'' \<or> x = FloatNum (Fin 0) \<or> x = IntNum 0"
  using assms by (cases "dtype c") (auto simp: fill_column_cells)

lemma clean_data_Inr:
  assumes "raw_data st = Some raw" and "drop_duplicates (stringify ev raw) = Inr t2"
  shows "fst (clean_data ev st) = None"
    and "df (snd (clean_data ev st)) = Some (fill_nulls t2)"
  using assms by (simp_all add: clean_data_def Let_def)

lemma stringify_id:
  assumes "\<forall>c \<in> set (cols t). \<not> has_dict c"
  shows "stringify ev t = t"
proof -
  have "map (stringify_column ev) (cols t) = cols t"
    using assms by (simp add: stringify_column_def map_idI)
  then show ?thesis by (simp add: stringify_def)
qed

lemma cleaned_table_facts:
  assumes "wf_table raw" and "drop_duplicates (stringify ev raw) = Inr t2"
  shows "wf_table (fill_nulls t2)"
    and "\<forall>c \<in> set (cols (fill_nulls t2)). \<forall>x \<in> set (cells c). \<not> is_dict x \<and> \<not> isna x"
    and "nrows (fill_nulls t2) \<noteq> 0 \<and> length (cols (fill_nulls t2)) \<noteq> 1
           \<and> cols (fill_nulls t2) \<noteq> [] \<longrightarrow>
           (\<forall>c \<in> set (cols (fill_nulls t2)). \<forall>x \<in> set (cells c). \<not> unhashable x)"
proof -
  let ?t1 = "stringify ev raw"
  have wf2: "wf_table t2"
    using wf_stringify [OF assms(1)] assms(2) by (rule wf_drop_duplicates)
  then show wf3: "wf_table (fill_nulls t2)" by (rule wf_fill_nulls)
  have nodict2: "\<not> is_dict x" if "c2 \<in> set (cols t2)" "x \<in> set (cells c2)" for c2 x
  proof -
    from drop_duplicates_column [OF assms(2) that(1)] obtain c1 where
      c1: "c1 \<in> set (cols ?t1)" "set (cells c2) \<subseteq> set (cells c1)" by blast
    then obtain c0 where "c1 = stringify_column ev c0" by (auto simp: stringify_def)
    with c1 that(2) show ?thesis using stringify_column_no_dict by blast
  qed
  show "\<forall>c \<in> set (cols (fill_nulls t2)). \<forall>x \<in> set (cells c). \<not> is_dict x \<and> \<not> isna x"
  proof (intro ballI)
    fix c x
    assume c: "c \<in> set (cols (fill_nulls t2))" and x: "x \<in> set (cells c)"
    from c obtain c2 where c2: "c2 \<in> set (cols t2)" "c = fill_numeric_column (fill_text_column c2)"
      by (auto simp: cols_fill_nulls)
    from x c2(2) have "x \<in> set (cells c2) \<or> x = Text ''Desconocido'' \<or> x = FloatNum (Fin 0)
        \<or> x = IntNum 0"
      by (simp add: fill_column_cell)
    then have d: "\<not> is_dict x" using nodict2 [OF c2(1)] by auto
    have "\<not> isna x"
    proof (cases "dtype c2 = Bool")
      case True
      with c c2(2) x wf3 have "cell_ok Bool x" by (auto simp: wf_table_def)
      then show ?thesis by (cases x) auto
    next
      case False
      with x c2(2) show ?thesis using fill_column_notna by blast
    qed
    with d show "\<not> is_dict x \<and> \<not> isna x" by simp
  qed
  show "nrows (fill_nulls t2) \<noteq> 0 \<and> length (cols (fill_nulls t2)) \<noteq> 1
           \<and> cols (fill_nulls t2) \<noteq> [] \<longrightarrow>
           (\<forall>c \<in> set (cols (fill_nulls t2)). \<forall>x \<in> set (cells c). \<not> unhashable x)"
  proof (intro impI ballI)
    fix c x
    assume ne: "nrows (fill_nulls t2) \<noteq> 0 \<and> length (cols (fill_nulls t2)) \<noteq> 1
           \<and> cols (fill_nulls t2) \<noteq> []"
      and c: "c \<in> set (cols (fill_nulls t2))" and x: "x \<in> set (cells c)"
    from c obtain c2 where c2: "c2 \<in> set (cols t2)" "c = fill_numeric_column (fill_text_column c2)"
      by (auto simp: cols_fill_nulls)
    from drop_duplicates_column [OF assms(2) c2(1)] obtain c1 where
      c1: "c1 \<in> set (cols ?t1)" "set (cells c2) \<subseteq> set (cells c1)" by blast
    from ne have "nrows t2 \<noteq> 0" "cols t2 \<noteq> []" "length (cols t2) \<noteq> 1"
      by (simp_all add: cols_fill_nulls)
    with drop_duplicates_cases [OF assms(2)] length_cols_drop_duplicates [OF assms(2)]
    have "\<forall>c \<in> set (cols ?t1). \<forall>x \<in> set (cells c). \<not> unhashable x"
      by auto
    with c1 have "\<forall>y \<in> set (cells c2). \<not> unhashable y" by blast
    with x c2(2) show "\<not> unhashable x" using fill_column_no_dict by blast
  qed
qed

lemma length_filter_keep_first:
  "length (filter id (keep_first [] ks)) = card (set ks)"
proof -
  have "length (filter id (keep_first [] ks)) = length (select (keep_first [] ks) ks)"
    by (simp add: length_select)
  also have "\<dots> = card (set (select (keep_first [] ks) ks))"
    using select_keep_first_distinct [of "[]" ks] by (simp add: distinct_card)
  also have "\<dots> = card (set ks)"
    by (simp add: set_select_keep_first)
  finally show ?thesis .
qed

lemma drop_duplicates_id_iff:
  assumes "wf_table t" and "nrows t \<noteq> 0" and "cols t \<noteq> []"
    and "length (cols t) = 1 \<or> (\<forall>c \<in> set (cols t). \<forall>x \<in> set (cells c). \<not> unhashable x)"
  shows "\<exists>t'. drop_duplicates t = Inr t' \<and> (t' = t \<longleftrightarrow> distinct (row_keys t))
           \<and> (\<not> distinct (row_keys t) \<longrightarrow> nrows t' < nrows t)"
proof -
  let ?keep = "keep_first [] (row_keys t)"
  let ?t' = "\<lparr>nrows = length (filter id ?keep),
              cols = map (\<lambda>c. c\<lparr>cells := select ?keep (cells c)\<rparr>) (cols t)\<rparr>"
  from assms have d: "drop_duplicates t = Inr ?t'"
    by (auto simp: drop_duplicates_def Let_def)
  have n: "nrows ?t' = card (set (row_keys t))" by (simp add: length_filter_keep_first)
  show ?thesis
  proof (cases "distinct (row_keys t)")
    case True
    then have k: "?keep = replicate (nrows t) True"
      using keep_first_distinct [of "row_keys t" "[]"] by simp
    have "map (\<lambda>c. c\<lparr>cells := select ?keep (cells c)\<rparr>) (cols t) = cols t"
      using assms(1) by (intro map_idI) (simp add: k select_all wf_table_def)
    then have "?t' = t" by (simp add: k)
    with d True show ?thesis by simp
  next
    case False
    then have "card (set (row_keys t)) < length (row_keys t)"
      using card_distinct card_length le_neq_implies_less by blast
    with n have less: "nrows ?t' < nrows t" by simp
    have "?t' \<noteq> t"
    proof
      assume "?t' = t"
      then have "nrows ?t' = nrows t" by (rule arg_cong)
      with less show False by simp
    qed
    with d False less show ?thesis by blast
  qed
qed

text \<open>
  The text made of a dict column depends on the version of pandas. Where \<open>astype(str)\<close>
  writes the text of a missing value, the three rows of \<open>ex_dict_column\<close> stay
  different; where it keeps the value missing, the filling writes \<open>Desconocido\<close> and
  makes the last two rows equal, and a second cleaning removes one of them.
\<close>

lemma clean_dict_column:
  "map_option (\<lambda>t. map cells (cols t))
     (df (snd (clean_data ex_env ((init Map.empty)\<lparr>raw_data := Some ex_dict_column\<rparr>))))
     = Some [[Text ''{}'', Text ''None'', Text ''Desconocido'']]"
  "map_option (\<lambda>t. map cells (cols t))
     (df (snd (clean_data ex_env_keep_na ((init Map.empty)\<lparr>raw_data := Some ex_dict_column\<rparr>))))
     = Some [[Text ''{}'', Text ''Desconocido'', Text ''Desconocido'']]"
  "map_option (\<lambda>t. map cells (cols t))
     (df (snd (clean_data ex_env_keep_na ((init Map.empty)\<lparr>raw_data :=
        df (snd (clean_data ex_env_keep_na
          ((init Map.empty)\<lparr>raw_data := Some ex_dict_column\<rparr>)))\<rparr>))))
     = Some [[Text ''{}'', Text ''Desconocido'']]"
  by code_simp+

text \<open>
  Claim C7, as the code has it. After a successful cleaning of a well-formed raw table,
  cleaning the result again succeeds, and it gives the same table exactly when the
  result has no two equal rows (or has no columns): the missing values are filled after
  the duplicates are removed, and the filling can make two rows equal.
\<close>

theorem cleaning_twice:
  assumes "raw_data st = Some raw" and "wf_table raw"
    and "clean_data ev st = (None, st1)" and "df st1 = Some t1"
  shows "fst (clean_data ev (st1\<lparr>raw_data := Some t1\<rparr>)) = None
       \<and> (df (snd (clean_data ev (st1\<lparr>raw_data := Some t1\<rparr>))) = Some t1
            \<longleftrightarrow> distinct (row_keys t1) \<or> cols t1 = [])"
proof -
  let ?st = "st1\<lparr>raw_data := Some t1\<rparr>"
  from assms(1,3,4) obtain t2 where t2: "drop_duplicates (stringify ev raw) = Inr t2"
    "t1 = fill_nulls t2"
    using clean_data_NoneD by fastforce
  note facts = cleaned_table_facts [OF assms(2) t2(1), folded t2(2)]
  have raw: "raw_data ?st = Some t1" by simp
  have "\<forall>c \<in> set (cols t1). \<not> has_dict c" using facts(2) by (simp add: has_dict_def)
  then have s: "stringify ev t1 = t1" by (rule stringify_id)
  have f: "fill_nulls t1 = t1" using facts(2) by (simp add: fill_nulls_id)
  show ?thesis
  proof (cases "nrows t1 = 0 \<or> cols t1 = []")
    case True
    then have d: "drop_duplicates (stringify ev t1) = Inr t1"
      by (simp add: s drop_duplicates_def)
    have "nrows t1 = 0 \<Longrightarrow> distinct (row_keys t1)"
      by (simp add: row_keys_def rows_of_def)
    with True clean_data_Inr [OF raw d] f show ?thesis by auto
  next
    case False
    have "length (cols t1) = 1
        \<or> (\<forall>c \<in> set (cols t1). \<forall>x \<in> set (cells c). \<not> unhashable x)"
    proof (cases "length (cols t1) = 1")
      case True
      then show ?thesis by (rule disjI1)
    next
      case one: False
      with False facts(3) have "\<forall>c \<in> set (cols t1). \<forall>x \<in> set (cells c). \<not> unhashable x"
        by simp
      then show ?thesis by (rule disjI2)
    qed
    with False facts(1) obtain t' where t': "drop_duplicates t1 = Inr t'"
      "t' = t1 \<longleftrightarrow> distinct (row_keys t1)" "\<not> distinct (row_keys t1) \<longrightarrow> nrows t' < nrows t1"
      using drop_duplicates_id_iff [of t1] by blast
    then have d: "drop_duplicates (stringify ev t1) = Inr t'" by (simp add: s)
    have "fill_nulls t' = t1 \<longleftrightarrow> distinct (row_keys t1)"
    proof (cases "distinct (row_keys t1)")
      case True
      with t'(2) f show ?thesis by simp
    next
      case False
      with t'(3) have "nrows (fill_nulls t') \<noteq> nrows t1" by simp
      with False show ?thesis by auto
    qed
    with False clean_data_Inr [OF raw d] show ?thesis by simp
  qed
qed

theorem cleaning_twice_witness:
  "raw_data ((init Map.empty)\<lparr>raw_data := Some ex_scenario\<rparr>) = Some ex_scenario
   \<and> wf_table ex_scenario
   \<and> fst (clean_data ex_env ((init Map.empty)\<lparr>raw_data := Some ex_scenario\<rparr>)) = None
   \<and> df (snd (clean_data ex_env ((init Map.empty)\<lparr>raw_data := Some ex_scenario\<rparr>)))
       = Some ex_scenario_clean
   \<and> distinct (row_keys ex_scenario_clean)
   \<and> fst (clean_data ex_env
        ((snd (clean_data ex_env ((init Map.empty)\<lparr>raw_data := Some ex_scenario\<rparr>)))
           \<lparr>raw_data := Some ex_scenario_clean\<rparr>)) = None
   \<and> df (snd (clean_data ex_env
        ((snd (clean_data ex_env ((init Map.empty)\<lparr>raw_data := Some ex_scenario\<rparr>)))
           \<lparr>raw_data := Some ex_scenario_clean\<rparr>))) = Some ex_scenario_clean"
proof -
  let ?st = "(init Map.empty)\<lparr>raw_data := Some ex_scenario\<rparr>"
  let ?res = "clean_data ex_env ?st"
  have h1: "raw_data ?st = Some ex_scenario" by simp
  have h3: "?res = (None, snd ?res)" using clean_ex_scenario(1) by (metis prod.collapse)
  have h5: "distinct (row_keys ex_scenario_clean)" by code_simp
  from cleaning_twice [OF h1 wf_ex_scenario h3 clean_ex_scenario(2)] h5 h1 wf_ex_scenario
    clean_ex_scenario
  show ?thesis by simp
qed

text \<open>
  Claim C7 as stated fails: a float column with a zero and a missing value is cleaned
  to two rows holding \<open>0\<close>, and cleaning that table removes one of them.
\<close>

theorem cleaning_twice_counterexample:
  "df (snd (clean_data ex_env ((init Map.empty)\<lparr>raw_data := Some ex_zero_nan\<rparr>)))
     = Some ex_zero_zero
   \<and> df (snd (clean_data ex_env ((init Map.empty)\<lparr>raw_data := Some ex_zero_zero\<rparr>)))
     = Some ex_zero
   \<and> ex_zero \<noteq> ex_zero_zero"
  by code_simp

text \<open>
  Claim C8, as the code has it. After a successful cleaning of a well-formed raw table
  the result is well formed, has the same column names in the same order, a column has
  the object type if it held a dict and its former type otherwise, and no cell is a
  dict or missing. The rows are pairwise different when the raw table has a column and
  no missing value; otherwise filling can make rows equal.
\<close>

theorem cleaner_guarantee:
  assumes "raw_data st = Some raw" and "wf_table raw" and "clean_data ev st = (None, st')"
  shows "\<exists>t'. df st' = Some t' \<and> wf_table t' \<and> names t' = names raw
     \<and> length (cols t') = length (cols raw)
     \<and> (\<forall>j < length (cols raw).
          dtype (cols t' ! j) = (if has_dict (cols raw ! j) then Object else dtype (cols raw ! j)))
     \<and> (\<forall>c \<in> set (cols t'). \<forall>x \<in> set (cells c). \<not> is_dict x \<and> \<not> isna x)
     \<and> (cols raw \<noteq> [] \<and> (\<forall>c \<in> set (cols raw). \<forall>x \<in> set (cells c). \<not> isna x)
        \<longrightarrow> distinct (row_keys t'))"
proof -
  let ?t1 = "stringify ev raw"
  from assms(1,3) obtain t2 where t2: "drop_duplicates ?t1 = Inr t2" "df st' = Some (fill_nulls t2)"
    using clean_data_NoneD by blast
  note facts = cleaned_table_facts [OF assms(2) t2(1)]
  have nm: "names (fill_nulls t2) = names raw"
    using t2(1) by (simp add: names_drop_duplicates)
  have len: "length (cols (fill_nulls t2)) = length (cols raw)"
    using drop_duplicates_columns [OF t2(1)] by (simp add: cols_fill_nulls stringify_def)
  have dt: "dtype (cols (fill_nulls t2) ! j) = (if has_dict (cols raw ! j) then Object else dtype (cols raw ! j))"
    if "j < length (cols raw)" for j
  proof -
    from that have j: "j < length (cols ?t1)" by (simp add: stringify_def)
    with drop_duplicates_columns [OF t2(1)] have "j < length (cols t2)"
      "dtype (cols t2 ! j) = dtype (cols ?t1 ! j)" by simp_all
    with that show ?thesis by (simp add: cols_fill_nulls stringify_def)
  qed
  have dist: "distinct (row_keys (fill_nulls t2))"
    if a: "cols raw \<noteq> [] \<and> (\<forall>c \<in> set (cols raw). \<forall>x \<in> set (cells c). \<not> isna x)"
  proof -
    have n1: "\<not> isna x" if "c1 \<in> set (cols ?t1)" "x \<in> set (cells c1)" for c1 x
    proof -
      from that(1) obtain c0 where "c0 \<in> set (cols raw)" "c1 = stringify_column ev c0"
        by (auto simp: stringify_def)
      with a that(2) show ?thesis using stringify_column_notna [of x ev c0] by blast
    qed
    have "\<forall>c \<in> set (cols t2). \<forall>x \<in> set (cells c). \<not> isna x"
    proof (intro ballI)
      fix c x
      assume "c \<in> set (cols t2)" "x \<in> set (cells c)"
      with drop_duplicates_column [OF t2(1)] n1 show "\<not> isna x" by blast
    qed
    then have "fill_nulls t2 = t2" by (rule fill_nulls_id)
    moreover have "row_keys t2 = select (keep_first [] (row_keys ?t1)) (row_keys ?t1)"
      using assms(2) t2(1) a
      by (intro row_keys_drop_duplicates) (simp_all add: rect_stringify wf_table_rect)
    ultimately show ?thesis
      using select_keep_first_distinct [of "[]" "row_keys ?t1"] by simp
  qed
  show ?thesis
  proof (intro exI [of _ "fill_nulls t2"] conjI)
    show "df st' = Some (fill_nulls t2)" by (rule t2(2))
    show "wf_table (fill_nulls t2)" by (rule facts(1))
    show "names (fill_nulls t2) = names raw" by (rule nm)
    show "length (cols (fill_nulls t2)) = length (cols raw)" by (rule len)
    show "\<forall>j < length (cols raw). dtype (cols (fill_nulls t2) ! j)
            = (if has_dict (cols raw ! j) then Object else dtype (cols raw ! j))"
      using dt by blast
    show "\<forall>c \<in> set (cols (fill_nulls t2)). \<forall>x \<in> set (cells c). \<not> is_dict x \<and> \<not> isna x"
      by (rule facts(2))
    show "cols raw \<noteq> [] \<and> (\<forall>c \<in> set (cols raw). \<forall>x \<in> set (cells c). \<not> isna x)
        \<longrightarrow> distinct (row_keys (fill_nulls t2))"
      using dist by blast
  qed
qed

theorem cleaner_guarantee_witness:
  "raw_data ((init Map.empty)\<lparr>raw_data := Some ex_scenario\<rparr>) = Some ex_scenario
   \<and> wf_table ex_scenario
   \<and> fst (clean_data ex_env ((init Map.empty)\<lparr>raw_data := Some ex_scenario\<rparr>)) = None
   \<and> cols ex_scenario \<noteq> []
   \<and> list_all (\<lambda>c. list_all (\<lambda>x. \<not> isna x) (cells c)) (cols ex_scenario)
   \<and> wf_table ex_scenario_clean
   \<and> names ex_scenario_clean = names ex_scenario
   \<and> list_all (\<lambda>c. list_all (\<lambda>x. \<not> is_dict x \<and> \<not> isna x) (cells c)) (cols ex_scenario_clean)
   \<and> distinct (row_keys ex_scenario_clean)"
proof -
  let ?st = "(init Map.empty)\<lparr>raw_data := Some ex_scenario\<rparr>"
  let ?res = "clean_data ex_env ?st"
  have h1: "raw_data ?st = Some ex_scenario" by simp
  have h3: "?res = (None, snd ?res)" using clean_ex_scenario(1) by (metis prod.collapse)
  have h4: "cols ex_scenario \<noteq> []" by (simp add: ex_scenario_def)
  have h5: "list_all (\<lambda>c. list_all (\<lambda>x. \<not> isna x) (cells c)) (cols ex_scenario)"
    by code_simp
  then have h5': "\<forall>c \<in> set (cols ex_scenario). \<forall>x \<in> set (cells c). \<not> isna x"
    by (simp add: list_all_iff)
  from cleaner_guarantee [OF h1 wf_ex_scenario h3] obtain t' where
    t': "df (snd ?res) = Some t'" "wf_table t'" "names t' = names ex_scenario"
      "\<forall>c \<in> set (cols t'). \<forall>x \<in> set (cells c). \<not> is_dict x \<and> \<not> isna x"
      "cols ex_scenario \<noteq> [] \<and> (\<forall>c \<in> set (cols ex_scenario). \<forall>x \<in> set (cells c). \<not> isna x)
        \<longrightarrow> distinct (row_keys t')"
    by blast
  from t'(1) clean_ex_scenario(2) have eq: "t' = ex_scenario_clean" by simp
  from t'(5) h4 h5' have "distinct (row_keys t')" by blast
  with t'(2,3,4) have "wf_table ex_scenario_clean \<and> names ex_scenario_clean = names ex_scenario
    \<and> list_all (\<lambda>c. list_all (\<lambda>x. \<not> is_dict x \<and> \<not> isna x) (cells c)) (cols ex_scenario_clean)
    \<and> distinct (row_keys ex_scenario_clean)"
    unfolding eq by (simp add: list_all_iff)
  with h1 wf_ex_scenario clean_ex_scenario(1) h4 h5 show ?thesis by blast
qed

text \<open>
  Claim C8 as stated fails: the cleaned table can hold duplicate rows. A float column
  with a zero and a missing value is cleaned to two equal rows.
\<close>

theorem cleaner_guarantee_counterexample:
  "wf_table ex_zero_nan
   \<and> fst (clean_data ex_env ((init Map.empty)\<lparr>raw_data := Some ex_zero_nan\<rparr>)) = None
   \<and> map_option rows_of
        (df (snd (clean_data ex_env ((init Map.empty)\<lparr>raw_data := Some ex_zero_nan\<rparr>))))
       = Some [[FloatNum (Fin 0)], [FloatNum (Fin 0)]]"
  by code_simp

text \<open>
  Claim C3, as the code has it. In a successful cleaning, the table that is left after
  the dict columns are made text and the duplicate rows are removed keeps its shape,
  and cell by cell: a missing value of an object column becomes the text
  \<open>Desconocido\<close>, a missing value of a float column becomes \<open>0.0\<close> and of an integer
  column \<open>0\<close> (the code fills integer columns too, although a well-formed integer column
  holds no missing value), and every other cell stays as it is.
\<close>

theorem missing_values_filled:
  assumes "raw_data st = Some raw" and "clean_data ev st = (None, st')"
  shows "\<exists>t2 t'. drop_duplicates (stringify ev raw) = Inr t2 \<and> df st' = Some t'
     \<and> nrows t' = nrows t2 \<and> length (cols t') = length (cols t2)
     \<and> (\<forall>j < length (cols t2).
          cname (cols t' ! j) = cname (cols t2 ! j) \<and> dtype (cols t' ! j) = dtype (cols t2 ! j)
        \<and> length (cells (cols t' ! j)) = length (cells (cols t2 ! j))
        \<and> (\<forall>i < length (cells (cols t2 ! j)).
             (isna (cells (cols t2 ! j) ! i) \<and> dtype (cols t2 ! j) = Object \<longrightarrow>
                cells (cols t' ! j) ! i = Text ''Desconocido'')
           \<and> (isna (cells (cols t2 ! j) ! i) \<and> dtype (cols t2 ! j) = Float64 \<longrightarrow>
                cells (cols t' ! j) ! i = FloatNum (Fin 0))
           \<and> (isna (cells (cols t2 ! j) ! i) \<and> dtype (cols t2 ! j) = Int64 \<longrightarrow>
                cells (cols t' ! j) ! i = IntNum 0)
           \<and> (\<not> isna (cells (cols t2 ! j) ! i) \<or> dtype (cols t2 ! j) = Bool \<longrightarrow>
                cells (cols t' ! j) ! i = cells (cols t2 ! j) ! i)))"
proof -
  from assms obtain t2 where t2: "drop_duplicates (stringify ev raw) = Inr t2"
    "df st' = Some (fill_nulls t2)"
    using clean_data_NoneD by blast
  have "cname (cols (fill_nulls t2) ! j) = cname (cols t2 ! j)
        \<and> dtype (cols (fill_nulls t2) ! j) = dtype (cols t2 ! j)
        \<and> length (cells (cols (fill_nulls t2) ! j)) = length (cells (cols t2 ! j))
        \<and> (\<forall>i < length (cells (cols t2 ! j)).
             (isna (cells (cols t2 ! j) ! i) \<and> dtype (cols t2 ! j) = Object \<longrightarrow>
                cells (cols (fill_nulls t2) ! j) ! i = Text ''Desconocido'')
           \<and> (isna (cells (cols t2 ! j) ! i) \<and> dtype (cols t2 ! j) = Float64 \<longrightarrow>
                cells (cols (fill_nulls t2) ! j) ! i = FloatNum (Fin 0))
           \<and> (isna (cells (cols t2 ! j) ! i) \<and> dtype (cols t2 ! j) = Int64 \<longrightarrow>
                cells (cols (fill_nulls t2) ! j) ! i = IntNum 0)
           \<and> (\<not> isna (cells (cols t2 ! j) ! i) \<or> dtype (cols t2 ! j) = Bool \<longrightarrow>
                cells (cols (fill_nulls t2) ! j) ! i = cells (cols t2 ! j) ! i))"
    if "j < length (cols t2)" for j
    using that by (simp add: cols_fill_nulls fill_column_cells)
  with t2 show ?thesis
    by (intro exI [of _ t2] exI [of _ "fill_nulls t2"]) (simp add: cols_fill_nulls)
qed

theorem missing_values_filled_witness:
  "raw_data ((init Map.empty)\<lparr>raw_data := Some ex_missing_text\<rparr>) = Some ex_missing_text
   \<and> fst (clean_data ex_env ((init Map.empty)\<lparr>raw_data := Some ex_missing_text\<rparr>)) = None
   \<and> drop_duplicates (stringify ex_env ex_missing_text) = Inr ex_missing_text
   \<and> isna (cells (cols ex_missing_text ! 0) ! 1) \<and> dtype (cols ex_missing_text ! 0) = Object
   \<and> \<not> isna (cells (cols ex_missing_text ! 0) ! 0)
   \<and> map_option (\<lambda>t. cells (cols t ! 0) ! 1)
        (df (snd (clean_data ex_env ((init Map.empty)\<lparr>raw_data := Some ex_missing_text\<rparr>))))
       = Some (Text ''Desconocido'')
   \<and> map_option (\<lambda>t. cells (cols t ! 0) ! 0)
        (df (snd (clean_data ex_env ((init Map.empty)\<lparr>raw_data := Some ex_missing_text\<rparr>))))
       = Some (Text ''basic'')
   \<and> raw_data ((init Map.empty)\<lparr>raw_data := Some ex_zero_nan\<rparr>) = Some ex_zero_nan
   \<and> fst (clean_data ex_env ((init Map.empty)\<lparr>raw_data := Some ex_zero_nan\<rparr>)) = None
   \<and> drop_duplicates (stringify ex_env ex_zero_nan) = Inr ex_zero_nan
   \<and> isna (cells (cols ex_zero_nan ! 0) ! 1) \<and> dtype (cols ex_zero_nan ! 0) = Float64
   \<and> map_option (\<lambda>t. cells (cols t ! 0) ! 1)
        (df (snd (clean_data ex_env ((init Map.empty)\<lparr>raw_data := Some ex_zero_nan\<rparr>))))
       = Some (FloatNum (Fin 0))"
proof -
  let ?st = "(init Map.empty)\<lparr>raw_data := Some ex_missing_text\<rparr>"
  let ?res = "clean_data ex_env ?st"
  have h1: "raw_data ?st = Some ex_missing_text" by simp
  have h2: "fst ?res = None" by code_simp
  then have h2': "?res = (None, snd ?res)" by (metis prod.collapse)
  have h3: "drop_duplicates (stringify ex_env ex_missing_text) = Inr ex_missing_text"
    by code_simp
  have h4: "isna (cells (cols ex_missing_text ! 0) ! 1)" "dtype (cols ex_missing_text ! 0) = Object"
    "\<not> isna (cells (cols ex_missing_text ! 0) ! 0)"
    "cells (cols ex_missing_text ! 0) ! 0 = Text ''basic''"
    "0 < length (cols ex_missing_text)" "1 < length (cells (cols ex_missing_text ! 0))"
    by (simp_all add: ex_missing_text_def)
  from missing_values_filled [OF h1 h2'] h3 obtain t' where t': "df (snd ?res) = Some t'"
    "\<forall>j < length (cols ex_missing_text).
        \<forall>i < length (cells (cols ex_missing_text ! j)).
             (isna (cells (cols ex_missing_text ! j) ! i) \<and> dtype (cols ex_missing_text ! j) = Object \<longrightarrow>
                cells (cols t' ! j) ! i = Text ''Desconocido'')
           \<and> (\<not> isna (cells (cols ex_missing_text ! j) ! i) \<or> dtype (cols ex_missing_text ! j) = Bool \<longrightarrow>
                cells (cols t' ! j) ! i = cells (cols ex_missing_text ! j) ! i)"
    by fastforce
  from t'(2) h4(5,6) have r1: "isna (cells (cols ex_missing_text ! 0) ! 1) \<and> dtype (cols ex_missing_text ! 0) = Object \<longrightarrow>
                cells (cols t' ! 0) ! 1 = Text ''Desconocido''"
    by blast
  have "0 < length (cells (cols ex_missing_text ! 0))" by (simp add: ex_missing_text_def)
  with t'(2) h4(5) have r2: "\<not> isna (cells (cols ex_missing_text ! 0) ! 0) \<or> dtype (cols ex_missing_text ! 0) = Bool \<longrightarrow>
                cells (cols t' ! 0) ! 0 = cells (cols ex_missing_text ! 0) ! 0"
    by blast
  from r1 r2 h4 have "cells (cols t' ! 0) ! 1 = Text ''Desconocido''"
    "cells (cols t' ! 0) ! 0 = Text ''basic''"
    by simp_all
  with t'(1) h1 h2 h3 h4 have text_part:
    "raw_data ?st = Some ex_missing_text \<and> fst ?res = None
     \<and> drop_duplicates (stringify ex_env ex_missing_text) = Inr ex_missing_text
     \<and> isna (cells (cols ex_missing_text ! 0) ! 1) \<and> dtype (cols ex_missing_text ! 0) = Object
     \<and> \<not> isna (cells (cols ex_missing_text ! 0) ! 0)
     \<and> map_option (\<lambda>t. cells (cols t ! 0) ! 1) (df (snd ?res)) = Some (Text ''Desconocido'')
     \<and> map_option (\<lambda>t. cells (cols t ! 0) ! 0) (df (snd ?res)) = Some (Text ''basic'')"
    by simp
  let ?sf = "(init Map.empty)\<lparr>raw_data := Some ex_zero_nan\<rparr>"
  let ?rf = "clean_data ex_env ?sf"
  have g1: "raw_data ?sf = Some ex_zero_nan" by simp
  have g2: "fst ?rf = None" by code_simp
  then have g2': "?rf = (None, snd ?rf)" by (metis prod.collapse)
  have g3: "drop_duplicates (stringify ex_env ex_zero_nan) = Inr ex_zero_nan"
    by code_simp
  have g4: "isna (cells (cols ex_zero_nan ! 0) ! 1)" "dtype (cols ex_zero_nan ! 0) = Float64"
    "0 < length (cols ex_zero_nan)" "1 < length (cells (cols ex_zero_nan ! 0))"
    by (simp_all add: ex_zero_nan_def)
  from missing_values_filled [OF g1 g2'] g3 obtain u' where u': "df (snd ?rf) = Some u'"
    "\<forall>j < length (cols ex_zero_nan).
        \<forall>i < length (cells (cols ex_zero_nan ! j)).
             (isna (cells (cols ex_zero_nan ! j) ! i) \<and> dtype (cols ex_zero_nan ! j) = Float64 \<longrightarrow>
                cells (cols u' ! j) ! i = FloatNum (Fin 0))"
    by fastforce
  from u'(2) g4(3,4) have "isna (cells (cols ex_zero_nan ! 0) ! 1) \<and> dtype (cols ex_zero_nan ! 0) = Float64 \<longrightarrow>
                cells (cols u' ! 0) ! 1 = FloatNum (Fin 0)"
    by blast
  with g4 have "cells (cols u' ! 0) ! 1 = FloatNum (Fin 0)" by simp
  with u'(1) g1 g2 g3 g4 have float_part:
    "raw_data ?sf = Some ex_zero_nan \<and> fst ?rf = None
     \<and> drop_duplicates (stringify ex_env ex_zero_nan) = Inr ex_zero_nan
     \<and> isna (cells (cols ex_zero_nan ! 0) ! 1) \<and> dtype (cols ex_zero_nan ! 0) = Float64
     \<and> map_option (\<lambda>t. cells (cols t ! 0) ! 1) (df (snd ?rf)) = Some (FloatNum (Fin 0))"
    by simp
  from text_part float_part show ?thesis by (simp only: simp_thms)
qed

text \<open>
  Claim C3 as stated fails on the sentinel: the missing value of a text column becomes
  the text \<open>Desconocido\<close>, not \<open>Unknown\<close>.
\<close>

theorem missing_values_counterexample:
  "map_option (\<lambda>t. map cells (cols t))
     (df (snd (clean_data ex_env ((init Map.empty)\<lparr>raw_data := Some ex_missing_text\<rparr>))))
     = Some [[Text ''basic'', Text ''Desconocido'']]
   \<and> Text ''Desconocido'' \<noteq> Text ''Unknown''"
  by code_simp

section \<open>The scenario of the specification\<close>

text \<open>
  The whole pipeline on the scenario's three records, the third a duplicate of the
  first: two rows remain, each label has the rate one half, the average charges are 70
  for \<open>Yes\<close> and 50 for \<open>No\<close> (the groups come in the order of their keys), and the
  report is written.
\<close>

lemma scenario_run:
  "fst (run_and_report ex_env (Some ''scenario'') None ''out'' (3042 / 100) (init Map.empty)) = None"
  "results (snd (run_and_report ex_env (Some ''scenario'') None ''out'' (3042 / 100) (init Map.empty)))
     = Some \<lparr>churn_rate = [(Text ''Yes'', 1 / 2), (Text ''No'', 1 / 2)],
             avg_charges = [(Text ''No'', FloatNum (Fin 50)), (Text ''Yes'', FloatNum (Fin 70))],
             total_customers = 2\<rparr>"
  "map_option rep_total
     (files (snd (run_and_report ex_env (Some ''scenario'') None ''out'' (3042 / 100) (init Map.empty)))
        ''out'') = Some 2"
  by code_simp+

end
